theory Spec2Isabelle
  imports Main "HOL-Library.Word" "HOL-Library.Signed_Division"
begin

unbundle bit_operations_syntax

section \<open>Machine model\<close>

text \<open>
  The driver targets a 32-bit ARM system: \<open>int\<close> and \<open>unsigned int\<close> are 32 bits wide,
  \<open>unsigned short\<close> is 16 bits, \<open>size_t\<close> is 32 bits, and multi-byte values in the
  compiler's streams are little-endian.

  Values on which the source does arithmetic that can leave the range of \<open>int\<close> (the
  stream offset, the byte counts returned by the chunk readers, the product of two
  \<open>unsigned short\<close> values) and the machine-code words are kept as 32-bit patterns; where
  their sign matters they are read with \<open>sint\<close>.  Loop counters, entry counts and sizes
  that are only compared, copied or divided are integers within the range of \<open>int\<close>.

  A read or write outside the memory handed to a function, and a dereference of a null
  pointer, are undefined behaviour in C.  The model makes them a value of type \<open>fault\<close>,
  so that a function that can run into them returns \<open>fault + result\<close>.
\<close>

type_synonym u8 = "8 word"
type_synonym u16 = "16 word"
type_synonym u32 = "32 word"

datatype fault = OutOfBounds | NullDeref

section \<open>Instruction patching (program.c, lines 625--692)\<close>

text \<open>
  The machine-code segment is an array of \<open>unsigned int\<close>; instruction \<open>i\<close> occupies the
  words \<open>4 * i\<close> to \<open>4 * i + 3\<close>.  The local \<open>tmp\<close> is an \<open>int\<close> that only ever holds
  values below 32.
\<close>

text \<open>One iteration of the loop of \<open>vertex_shader_attributes_patch\<close>.\<close>

definition attributes_patch_insn :: "u32 list \<Rightarrow> nat \<Rightarrow> fault + u32 list" where
  "attributes_patch_insn shader i =
     (if 4 * i + 1 < length shader then
        (let tmp = drop_bit 26 (shader ! (4 * i + 1)) AND (0x1F :: u32) in
         if tmp AND 0x10 = 0 then Inr shader
         else
           (let tmp1 = tmp AND 0x0F;
                shader1 = shader[4 * i + 1 := shader ! (4 * i + 1) AND NOT (push_bit 26 0x0F)];
                tmp2 = (if tmp1 = 0 then 1 else 0 :: u32);
                shader2 = shader1[4 * i + 1 := shader1 ! (4 * i + 1) OR push_bit 26 tmp2]
            in Inr shader2))
      else Inl OutOfBounds)"

function attributes_patch_loop :: "u32 list \<Rightarrow> int \<Rightarrow> int \<Rightarrow> fault + u32 list" where
  "attributes_patch_loop shader sz i =
     (if i < sz then
        (case attributes_patch_insn shader (nat i) of
           Inl e \<Rightarrow> Inl e
         | Inr shader' \<Rightarrow> attributes_patch_loop shader' sz (i + 1))
      else Inr shader)"
  by pat_completeness auto
termination
  by (relation "measure (\<lambda>(shader, sz, i). nat (sz - i))") auto

declare attributes_patch_loop.simps [simp del]

definition vertex_shader_attributes_patch :: "u32 list \<Rightarrow> int \<Rightarrow> fault + u32 list" where
  "vertex_shader_attributes_patch shader sz = attributes_patch_loop shader sz 0"

text \<open>One iteration of the loop of \<open>vertex_shader_varyings_patch\<close>.\<close>

definition varyings_patch_insn :: "u32 list \<Rightarrow> nat \<Rightarrow> fault + u32 list" where
  "varyings_patch_insn shader i =
     (if 4 * i + 3 < length shader then
        (let tmp = drop_bit 26 (shader ! (4 * i + 2)) AND (0x1F :: u32);
             shaderA =
               (if tmp AND 0x10 \<noteq> 0 then
                  (let tmp1 = tmp AND 0x0F;
                       shader1 = shader[4 * i + 2 := shader ! (4 * i + 2) AND NOT (push_bit 26 0x0F)];
                       tmp2 = (if tmp1 = 0 then 1 else 0 :: u32)
                   in shader1[4 * i + 2 := shader1 ! (4 * i + 2) OR push_bit 26 tmp2])
                else shader);
             tmpB = (drop_bit 31 (shaderA ! (4 * i + 2)) AND 0x01)
                    OR (push_bit 1 (shaderA ! (4 * i + 3)) AND 0x1E)
         in
           if tmpB AND 0x10 \<noteq> 0 then
             (let tmp1 = tmpB AND 0x0F;
                  shader1 = shaderA[4 * i + 2 := shaderA ! (4 * i + 2) AND NOT (push_bit 31 0x01)];
                  shader2 = shader1[4 * i + 3 := shader1 ! (4 * i + 3) AND NOT 0x07];
                  tmp2 = (if tmp1 = 0 then 1 else 0 :: u32);
                  shader3 = shader2[4 * i + 2 := shader2 ! (4 * i + 2) OR push_bit 31 tmp2]
              in Inr (shader3[4 * i + 3 := shader3 ! (4 * i + 3) OR signed_drop_bit 1 tmp2]))
           else Inr shaderA)
      else Inl OutOfBounds)"

function varyings_patch_loop :: "u32 list \<Rightarrow> int \<Rightarrow> int \<Rightarrow> fault + u32 list" where
  "varyings_patch_loop shader sz i =
     (if i < sz then
        (case varyings_patch_insn shader (nat i) of
           Inl e \<Rightarrow> Inl e
         | Inr shader' \<Rightarrow> varyings_patch_loop shader' sz (i + 1))
      else Inr shader)"
  by pat_completeness auto
termination
  by (relation "measure (\<lambda>(shader, sz, i). nat (sz - i))") auto

declare varyings_patch_loop.simps [simp del]

definition vertex_shader_varyings_patch :: "u32 list \<Rightarrow> int \<Rightarrow> fault + u32 list" where
  "vertex_shader_varyings_patch shader sz = varyings_patch_loop shader sz 0"

section \<open>Memory, allocation and diagnostics\<close>

text \<open>
  A stream is the memory that can be read from the stream pointer on, byte by byte.  The
  structures of program.c are overlaid on it, so a pointer into the stream is a byte offset
  from its start (\<open>None\<close> is the null pointer).  The \<open>size\<close> argument of the table
  parsers is a separate value: the parsers test it against zero and never against an offset.
\<close>

definition load_u16 :: "u8 list \<Rightarrow> int \<Rightarrow> fault + u16" where
  "load_u16 mem a =
     (if 0 \<le> a \<and> nat a + 2 \<le> length mem
      then Inr (ucast (mem ! nat a) OR push_bit 8 (ucast (mem ! (nat a + 1))))
      else Inl OutOfBounds)"

definition load_u32 :: "u8 list \<Rightarrow> int \<Rightarrow> fault + u32" where
  "load_u32 mem a =
     (if 0 \<le> a \<and> nat a + 4 \<le> length mem
      then Inr (ucast (mem ! nat a) OR push_bit 8 (ucast (mem ! (nat a + 1)))
                OR push_bit 16 (ucast (mem ! (nat a + 2)))
                OR push_bit 24 (ucast (mem ! (nat a + 3))))
      else Inl OutOfBounds)"

text \<open>
  The C library's allocator and \<open>printf\<close>.  The world records which blocks are allocated,
  the next fresh block address, whether the coming allocation requests succeed (once the
  script is used up every request succeeds), and the messages printed so far.  Block
  addresses are never 0; a null block pointer is \<open>None\<close>.
\<close>

type_synonym message = "string \<times> u32 list"

record world =
  live :: "nat list"
  next_block :: nat
  alloc_script :: "bool list"
  messages :: "message list"

definition calloc :: "world \<Rightarrow> nat option \<times> world" where
  "calloc w =
     (let grant = (Some (next_block w),
                   w\<lparr>live := next_block w # live w, next_block := Suc (next_block w),
                     alloc_script := tl (alloc_script w)\<rparr>)
      in case alloc_script w of
           [] \<Rightarrow> grant
         | ok # rest \<Rightarrow> if ok then grant else (None, w\<lparr>alloc_script := rest\<rparr>))"

definition free :: "nat option \<Rightarrow> world \<Rightarrow> world" where
  "free p w = (case p of None \<Rightarrow> w | Some b \<Rightarrow> w\<lparr>live := removeAll b (live w)\<rparr>)"

definition printf :: "string \<Rightarrow> u32 list \<Rightarrow> world \<Rightarrow> world" where
  "printf text args w = w\<lparr>messages := messages w @ [(text, args)]\<rparr>"

section \<open>Uniform stream (program.c, lines 79--281)\<close>

definition STREAM_TAG_STRI :: u32 where "STREAM_TAG_STRI = 0x49525453"
definition STREAM_TAG_SUNI :: u32 where "STREAM_TAG_SUNI = 0x494E5553"
definition STREAM_TAG_VUNI :: u32 where "STREAM_TAG_VUNI = 0x494E5556"
definition STREAM_TAG_VINI :: u32 where "STREAM_TAG_VINI = 0x494E4956"
definition STREAM_TAG_SATT :: u32 where "STREAM_TAG_SATT = 0x54544153"
definition STREAM_TAG_VATT :: u32 where "STREAM_TAG_VATT = 0x54544156"

text \<open>
  \<open>struct stream_uniform\<close> and \<open>struct stream_uniform_table\<close>.  Each record carries the
  address of its own heap block.  The \<open>next\<close> pointers of the singly linked list are the
  list \<open>t_uniforms\<close>, head first.
\<close>

record stream_uniform =
  u_block :: nat
  u_start :: "int option"
  u_string :: "int option"
  u_data :: "int option"
  u_init :: "int option"

record stream_uniform_table =
  t_block :: nat
  t_start :: "int option"
  t_uniforms :: "stream_uniform list"

text \<open>
  The readers return the number of bytes consumed, an \<open>int\<close> kept as its 32-bit pattern
  (\<open>sizeof\<close> plus a size field is computed in 32-bit unsigned arithmetic).  A reader handed
  a null structure pointer faults when it stores through it.
\<close>

definition stream_uniform_table_start_read ::
  "u8 list \<Rightarrow> int \<Rightarrow> stream_uniform_table \<Rightarrow> fault + (u32 \<times> stream_uniform_table)" where
  "stream_uniform_table_start_read stream p table =
     (case load_u32 stream p of
        Inl e \<Rightarrow> Inl e
      | Inr tag \<Rightarrow>
          if tag \<noteq> STREAM_TAG_SUNI then Inr (0, table)
          else Inr (16, table\<lparr>t_start := Some p\<rparr>))"

definition stream_uniform_start_read ::
  "u8 list \<Rightarrow> int \<Rightarrow> stream_uniform option \<Rightarrow> fault + (u32 \<times> stream_uniform option)" where
  "stream_uniform_start_read stream p uniform =
     (case load_u32 stream p of
        Inl e \<Rightarrow> Inl e
      | Inr tag \<Rightarrow>
          if tag \<noteq> STREAM_TAG_VUNI then Inr (0, uniform)
          else (case uniform of
                  None \<Rightarrow> Inl NullDeref
                | Some u \<Rightarrow> Inr (8, Some (u\<lparr>u_start := Some p\<rparr>))))"

definition stream_string_read :: "u8 list \<Rightarrow> int \<Rightarrow> fault + (u32 \<times> int option)" where
  "stream_string_read stream p =
     (case load_u32 stream p of
        Inl e \<Rightarrow> Inl e
      | Inr tag \<Rightarrow>
          if tag = STREAM_TAG_STRI then
            (case load_u32 stream (p + 4) of
               Inl e \<Rightarrow> Inl e
             | Inr sz \<Rightarrow> Inr (8 + sz, Some p))
          else Inr (0, None))"

definition stream_uniform_data_read :: "int \<Rightarrow> stream_uniform \<Rightarrow> u32 \<times> stream_uniform" where
  "stream_uniform_data_read p uniform = (20, uniform\<lparr>u_data := Some p\<rparr>)"

definition stream_uniform_init_read ::
  "u8 list \<Rightarrow> int \<Rightarrow> stream_uniform \<Rightarrow> fault + (u32 \<times> stream_uniform)" where
  "stream_uniform_init_read stream p uniform =
     (case load_u32 stream p of
        Inl e \<Rightarrow> Inl e
      | Inr tag \<Rightarrow>
          if tag \<noteq> STREAM_TAG_VINI then Inr (0, uniform)
          else (case load_u32 stream (p + 4) of
                  Inl e \<Rightarrow> Inl e
                | Inr sz \<Rightarrow> Inr (8 + sz, uniform\<lparr>u_init := Some p\<rparr>)))"

primrec free_uniforms :: "stream_uniform list \<Rightarrow> world \<Rightarrow> world" where
  "free_uniforms [] w = w"
| "free_uniforms (uniform # rest) w = free_uniforms rest (free (Some (u_block uniform)) w)"

definition stream_uniform_table_destroy :: "stream_uniform_table option \<Rightarrow> world \<Rightarrow> world" where
  "stream_uniform_table_destroy table w =
     (case table of
        None \<Rightarrow> w
      | Some t \<Rightarrow> free (Some (t_block t)) (free_uniforms (t_uniforms t) w))"

text \<open>
  One iteration of the loop of \<open>stream_uniform_table_create\<close>, up to the point where the new
  record is linked into the table.  It ends in a finished record and the new offset, or in a
  jump to one of the labels \<open>oom\<close> and \<open>corrupt\<close>.  The variable \<open>offset\<close> is an \<open>int\<close>
  kept as its 32-bit pattern; \<open>stream + offset\<close> uses its signed value.  The test after
  \<open>calloc\<close> is the source's: it looks at \<open>table\<close>.
\<close>

datatype loop_exit = Done | Oom | Corrupt

datatype 'u entry_step = Entry 'u u32 world | Jump loop_exit world

definition uniform_entry ::
  "u8 list \<Rightarrow> stream_uniform_table option \<Rightarrow> u32 \<Rightarrow> world \<Rightarrow> fault + stream_uniform entry_step" where
  "uniform_entry stream table offset w =
     (case calloc w of (block, w1) \<Rightarrow>
        (let uniform = map_option (\<lambda>b. \<lparr>u_block = b, u_start = None, u_string = None,
                                          u_data = None, u_init = None\<rparr>) block
         in
         if table = None then
           Inr (Jump Oom (printf ''stream_uniform_table_create: failed to allocate uniform'' [] w1))
         else
           (case stream_uniform_start_read stream (sint offset) uniform of
              Inl e \<Rightarrow> Inl e
            | Inr (n, uniform1) \<Rightarrow>
                (let offset1 = offset + n in
                 case uniform1 of
                   None \<Rightarrow> Inl NullDeref
                 | Some u1 \<Rightarrow>
                     if u_start u1 = None then
                       Inr (Jump Corrupt
                         (printf ''stream_uniform_table_create: Error: missing uniform start at''
                            [offset1] w1))
                     else
                       (case stream_string_read stream (sint offset1) of
                          Inl e \<Rightarrow> Inl e
                        | Inr (n2, str) \<Rightarrow>
                            (let u2 = u1\<lparr>u_string := str\<rparr>; offset2 = offset1 + n2 in
                             if u_string u2 = None then
                               Inr (Jump Corrupt
                                 (printf ''stream_uniform_table_create: Error: missing string at''
                                    [offset2] w1))
                             else
                               (case stream_uniform_data_read (sint offset2) u2 of (n3, u3) \<Rightarrow>
                                  (let offset3 = offset2 + n3 in
                                   if u_data u3 = None then
                                     Inr (Jump Corrupt
                                       (printf ''stream_uniform_table_create: Error: missing uniform data at''
                                          [offset3] w1))
                                   else
                                     (case stream_uniform_init_read stream (sint offset3) u3 of
                                        Inl e \<Rightarrow> Inl e
                                      | Inr (n4, u4) \<Rightarrow> Inr (Entry u4 (offset3 + n4) w1))))))))))"

text \<open>
  The loop.  \<open>table->start->count\<close> is read from the stream at every test; the stream is not
  written, so the model reads it once, before the loop, and passes it as \<open>count\<close>.  The
  counter \<open>i\<close> stays below \<open>count\<close> and cannot overflow.
\<close>

function uniform_loop ::
  "u8 list \<Rightarrow> int \<Rightarrow> stream_uniform_table option \<Rightarrow> u32 \<Rightarrow> int \<Rightarrow> world \<Rightarrow>
     fault + (loop_exit \<times> stream_uniform_table option \<times> world)" where
  "uniform_loop stream count table offset i w =
     (if i < count then
        (case uniform_entry stream table offset w of
           Inl e \<Rightarrow> Inl e
         | Inr (Jump x w1) \<Rightarrow> Inr (x, table, w1)
         | Inr (Entry uniform offset1 w1) \<Rightarrow>
             (case table of
                None \<Rightarrow> Inl NullDeref
              | Some t \<Rightarrow>
                  uniform_loop stream count (Some (t\<lparr>t_uniforms := uniform # t_uniforms t\<rparr>))
                    offset1 (i + 1) w1))
      else Inr (Done, table, w))"
  by pat_completeness auto
termination
  by (relation "measure (\<lambda>(stream, count, table, offset, i, w). nat (count - i))") auto

declare uniform_loop.simps [simp del]

definition stream_uniform_table_create ::
  "u8 list option \<Rightarrow> int \<Rightarrow> world \<Rightarrow> fault + (stream_uniform_table option \<times> world)" where
  "stream_uniform_table_create stream_ptr sz w =
     (case stream_ptr of
        None \<Rightarrow> Inr (None, w)
      | Some stream \<Rightarrow>
          if sz = 0 then Inr (None, w)
          else
            (case calloc w of
               (None, w1) \<Rightarrow>
                 Inr (None, printf ''stream_uniform_table_create: failed to allocate table'' [] w1)
             | (Some b, w1) \<Rightarrow>
                 (case stream_uniform_table_start_read stream 0
                         \<lparr>t_block = b, t_start = None, t_uniforms = []\<rparr> of
                    Inl e \<Rightarrow> Inl e
                  | Inr (n, table) \<Rightarrow>
                      (case t_start table of
                         None \<Rightarrow>
                           Inr (None,
                                stream_uniform_table_destroy (Some table)
                                  (printf ''stream_uniform_table_create: Error: missing table start at''
                                     [0 + n] w1))
                       | Some start \<Rightarrow>
                           (case load_u32 stream (start + 8) of
                              Inl e \<Rightarrow> Inl e
                            | Inr count \<Rightarrow>
                                (case uniform_loop stream (sint count) (Some table) (0 + n) 0 w1 of
                                   Inl e \<Rightarrow> Inl e
                                 | Inr (Done, table1, w2) \<Rightarrow> Inr (table1, w2)
                                 | Inr (Oom, table1, w2) \<Rightarrow>
                                     Inr (None, stream_uniform_table_destroy table1 w2)
                                 | Inr (Corrupt, table1, w2) \<Rightarrow>
                                     Inr (None, stream_uniform_table_destroy table1 w2)))))))"

section \<open>Symbols of the uniform table (program.c, lines 312--373)\<close>

text \<open>
  Modelled from the spec: \<open>struct symbol\<close>, \<open>symbol_create\<close> and \<open>symbol_destroy\<close> are
  declared in symbols.h and defined in symbols.c, which are not among the sources.  By
  section 3 of the specification a symbol holds a name, a kind, a total byte size, an
  element count, an entry count, a memory offset and an optional initializer buffer with a
  flag saying that initial data is present.  \<open>symbol_create\<close> allocates the symbol and fills
  it from its arguments, in the order in which program.c passes them, and returns null when
  the allocation fails; the offset is zero until program.c assigns it.  \<open>symbol_destroy\<close>
  releases the symbol.  The name and the initializer are the pointers that program.c
  passes, both into the stream.
\<close>

datatype symbol_type = SYMBOL_UNIFORM | SYMBOL_ATTRIBUTE

record symbol =
  sym_block :: nat
  sym_name :: int
  sym_type :: symbol_type
  sym_size :: u32
  sym_element_count :: u32
  sym_entry_count :: u32
  sym_data :: "int option"
  sym_has_data :: u32
  sym_offset :: u32

definition symbol_create ::
  "int \<Rightarrow> symbol_type \<Rightarrow> u32 \<Rightarrow> u32 \<Rightarrow> u32 \<Rightarrow> int option \<Rightarrow> u32 \<Rightarrow> world \<Rightarrow>
     symbol option \<times> world" where
  "symbol_create name type sz element_count entry_count data flag w =
     (case calloc w of
        (None, w1) \<Rightarrow> (None, w1)
      | (Some b, w1) \<Rightarrow>
          (Some \<lparr>sym_block = b, sym_name = name, sym_type = type, sym_size = sz,
                 sym_element_count = element_count, sym_entry_count = entry_count,
                 sym_data = data, sym_has_data = flag, sym_offset = 0\<rparr>, w1))"

definition symbol_destroy :: "symbol \<Rightarrow> world \<Rightarrow> world" where
  "symbol_destroy s w = free (Some (sym_block s)) w"

text \<open>
  The array of symbol pointers.  \<open>calloc (*count, sizeof (struct symbol * ))\<close> with a
  negative \<open>*count\<close> asks for more than the address space holds and returns null; otherwise
  it returns an array of \<open>*count\<close> null pointers, or null when the allocation fails.
\<close>

record symbol_array =
  arr_block :: nat
  arr_elems :: "symbol option list"

definition calloc_array :: "int \<Rightarrow> world \<Rightarrow> symbol_array option \<times> world" where
  "calloc_array n w =
     (if n < 0 then (None, w)
      else (case calloc w of
              (None, w1) \<Rightarrow> (None, w1)
            | (Some b, w1) \<Rightarrow> (Some \<lparr>arr_block = b, arr_elems = replicate (nat n) None\<rparr>, w1)))"

primrec destroy_symbols :: "symbol option list \<Rightarrow> world \<Rightarrow> world" where
  "destroy_symbols [] w = w"
| "destroy_symbols (p # rest) w =
     destroy_symbols rest (case p of None \<Rightarrow> w | Some s \<Rightarrow> symbol_destroy s w)"

text \<open>
  The call of \<open>symbol_create\<close> for one uniform.  The fields of \<open>struct stream_uniform_data\<close>
  are at the byte offsets noted in the source: \<open>element_count\<close> at 2, \<open>element_size\<close> at 4,
  \<open>entry_count\<close> at 6, \<open>offset\<close> at 16.  The two \<open>unsigned short\<close> factors are promoted to
  \<open>int\<close> and multiplied; the product is kept as its 32-bit pattern.  The name is the \<open>string\<close>
  member, 8 bytes into the string chunk; the initializer is the \<open>data\<close> member, 12 bytes into
  the init chunk.
\<close>

definition uniform_symbol ::
  "u8 list \<Rightarrow> stream_uniform \<Rightarrow> world \<Rightarrow> fault + (symbol option \<times> world)" where
  "uniform_symbol stream uniform w =
     (case u_string uniform of
        None \<Rightarrow> Inl NullDeref
      | Some str \<Rightarrow>
          (case u_data uniform of
             None \<Rightarrow> Inl NullDeref
           | Some d \<Rightarrow>
               (case load_u16 stream (d + 2) of
                  Inl e \<Rightarrow> Inl e
                | Inr element_count \<Rightarrow>
                    (case load_u16 stream (d + 4) of
                       Inl e \<Rightarrow> Inl e
                     | Inr element_size \<Rightarrow>
                         (case load_u16 stream (d + 6) of
                            Inl e \<Rightarrow> Inl e
                          | Inr entry_count \<Rightarrow>
                              (case u_init uniform of
                                 Some init \<Rightarrow>
                                   Inr (symbol_create (str + 8) SYMBOL_UNIFORM
                                          (ucast element_count * ucast element_size)
                                          (ucast element_count) (ucast entry_count)
                                          (Some (init + 12)) 1 w)
                               | None \<Rightarrow>
                                   Inr (symbol_create (str + 8) SYMBOL_UNIFORM
                                          (ucast element_count * ucast element_size)
                                          (ucast element_count) (ucast entry_count)
                                          None 0 w)))))))"

text \<open>
  The loop of \<open>stream_uniform_table_to_symbols\<close> over \<open>i\<close> and the linked list.  It returns
  \<open>True\<close> when it runs to its end and \<open>False\<close> when it jumps to the label \<open>error\<close>.
\<close>

fun uniform_symbols_loop ::
  "u8 list \<Rightarrow> int \<Rightarrow> symbol_array \<Rightarrow> int \<Rightarrow> stream_uniform list \<Rightarrow> world \<Rightarrow>
     fault + (bool \<times> symbol_array \<times> world)" where
  "uniform_symbols_loop stream count symbols i [] w = Inr (True, symbols, w)"
| "uniform_symbols_loop stream count symbols i (uniform # rest) w =
     (if i < count then
        (case uniform_symbol stream uniform w of
           Inl e \<Rightarrow> Inl e
         | Inr (None, w1) \<Rightarrow>
             Inr (False, symbols,
                  printf ''stream_uniform_table_to_symbols: Error: failed to create symbol'' [] w1)
         | Inr (Some s, w1) \<Rightarrow>
             if 0 \<le> i \<and> nat i < length (arr_elems symbols) then
               (case u_data uniform of
                  None \<Rightarrow> Inl NullDeref
                | Some d \<Rightarrow>
                    (case load_u16 stream (d + 16) of
                       Inl e \<Rightarrow> Inl e
                     | Inr off \<Rightarrow>
                         uniform_symbols_loop stream count
                           (symbols\<lparr>arr_elems :=
                              (arr_elems symbols)[nat i := Some (s\<lparr>sym_offset := ucast off\<rparr>)]\<rparr>)
                           (i + 1) rest w1))
             else Inl OutOfBounds)
      else Inr (True, symbols, w))"

text \<open>
  \<open>count\<close> and \<open>space\<close> are the values behind the two output pointers (\<open>None\<close> for a null
  pointer); the function returns the values they hold afterwards.  \<open>stream\<close> is the memory
  the table's pointers point into.
\<close>

definition stream_uniform_table_to_symbols ::
  "u8 list \<Rightarrow> stream_uniform_table option \<Rightarrow> int option \<Rightarrow> int option \<Rightarrow> world \<Rightarrow>
     fault + (symbol_array option \<times> int option \<times> int option \<times> world)" where
  "stream_uniform_table_to_symbols stream table count space w =
     (case table of
        None \<Rightarrow> Inr (None, count, space, w)
      | Some t \<Rightarrow>
          if count = None \<or> space = None then Inr (None, count, space, w)
          else
            (case t_start t of
               None \<Rightarrow> Inl NullDeref
             | Some start \<Rightarrow>
                 (case load_u32 stream (start + 8) of
                    Inl e \<Rightarrow> Inl e
                  | Inr c \<Rightarrow>
                      (case load_u32 stream (start + 12) of
                         Inl e \<Rightarrow> Inl e
                       | Inr sp \<Rightarrow>
                           if sint c = 0 then Inr (None, Some (sint c), Some (sint sp), w)
                           else
                             (case calloc_array (sint c) w of
                                (None, w1) \<Rightarrow>
                                  Inr (None, Some 0, Some 0,
                                       free None
                                         (printf ''stream_uniform_table_to_symbols: Error: failed to allocate symbols''
                                            [] w1))
                              | (Some symbols, w1) \<Rightarrow>
                                  (case uniform_symbols_loop stream (sint c) symbols 0 (t_uniforms t) w1 of
                                     Inl e \<Rightarrow> Inl e
                                   | Inr (True, symbols1, w2) \<Rightarrow>
                                       Inr (Some symbols1, Some (sint c), Some (sint sp), w2)
                                   | Inr (False, symbols1, w2) \<Rightarrow>
                                       Inr (None, Some 0, Some 0,
                                            free (Some (arr_block symbols1))
                                              (destroy_symbols (arr_elems symbols1) w2))))))))"

section \<open>Attribute stream (program.c, lines 375--620)\<close>

record stream_attribute =
  a_block :: nat
  a_start :: "int option"
  a_string :: "int option"
  a_data :: "int option"
  a_init :: "int option"

record stream_attribute_table =
  at_block :: nat
  at_start :: "int option"
  t_attributes :: "stream_attribute list"

definition stream_attribute_table_start_read ::
  "u8 list \<Rightarrow> int \<Rightarrow> stream_attribute_table \<Rightarrow> fault + (u32 \<times> stream_attribute_table)" where
  "stream_attribute_table_start_read stream p table =
     (case load_u32 stream p of
        Inl e \<Rightarrow> Inl e
      | Inr tag \<Rightarrow>
          if tag \<noteq> STREAM_TAG_SATT then Inr (0, table)
          else Inr (12, table\<lparr>at_start := Some p\<rparr>))"

definition stream_attribute_start_read ::
  "u8 list \<Rightarrow> int \<Rightarrow> stream_attribute option \<Rightarrow> fault + (u32 \<times> stream_attribute option)" where
  "stream_attribute_start_read stream p attribute =
     (case load_u32 stream p of
        Inl e \<Rightarrow> Inl e
      | Inr tag \<Rightarrow>
          if tag \<noteq> STREAM_TAG_VATT then Inr (0, attribute)
          else (case attribute of
                  None \<Rightarrow> Inl NullDeref
                | Some a \<Rightarrow> Inr (8, Some (a\<lparr>a_start := Some p\<rparr>))))"

definition stream_attribute_data_read :: "int \<Rightarrow> stream_attribute \<Rightarrow> u32 \<times> stream_attribute" where
  "stream_attribute_data_read p attribute = (16, attribute\<lparr>a_data := Some p\<rparr>)"

primrec free_attributes :: "stream_attribute list \<Rightarrow> world \<Rightarrow> world" where
  "free_attributes [] w = w"
| "free_attributes (attribute # rest) w = free_attributes rest (free (Some (a_block attribute)) w)"

definition stream_attribute_table_destroy :: "stream_attribute_table option \<Rightarrow> world \<Rightarrow> world" where
  "stream_attribute_table_destroy table w =
     (case table of
        None \<Rightarrow> w
      | Some t \<Rightarrow> free (Some (at_block t)) (free_attributes (t_attributes t) w))"

text \<open>
  One iteration of the loop of \<open>stream_attribute_table_create\<close>.  After the data record the
  source links the attribute into the table; it calls no reader for an init chunk.
\<close>

definition attribute_entry ::
  "u8 list \<Rightarrow> stream_attribute_table option \<Rightarrow> u32 \<Rightarrow> world \<Rightarrow>
     fault + stream_attribute entry_step" where
  "attribute_entry stream table offset w =
     (case calloc w of (block, w1) \<Rightarrow>
        (let attribute = map_option (\<lambda>b. \<lparr>a_block = b, a_start = None, a_string = None,
                                            a_data = None, a_init = None\<rparr>) block
         in
         if table = None then
           Inr (Jump Oom (printf ''stream_attribute_table_create: failed to allocate attribute'' [] w1))
         else
           (case stream_attribute_start_read stream (sint offset) attribute of
              Inl e \<Rightarrow> Inl e
            | Inr (n, attribute1) \<Rightarrow>
                (let offset1 = offset + n in
                 case attribute1 of
                   None \<Rightarrow> Inl NullDeref
                 | Some a1 \<Rightarrow>
                     if a_start a1 = None then
                       Inr (Jump Corrupt
                         (printf ''stream_attribute_table_create: Error: missing attribute start at''
                            [offset1] w1))
                     else
                       (case stream_string_read stream (sint offset1) of
                          Inl e \<Rightarrow> Inl e
                        | Inr (n2, str) \<Rightarrow>
                            (let a2 = a1\<lparr>a_string := str\<rparr>; offset2 = offset1 + n2 in
                             if a_string a2 = None then
                               Inr (Jump Corrupt
                                 (printf ''stream_attribute_table_create: Error: missing string at''
                                    [offset2] w1))
                             else
                               (case stream_attribute_data_read (sint offset2) a2 of (n3, a3) \<Rightarrow>
                                  (let offset3 = offset2 + n3 in
                                   if a_data a3 = None then
                                     Inr (Jump Corrupt
                                       (printf ''stream_attribute_table_create: Error: missing attribute data at''
                                          [offset3] w1))
                                   else Inr (Entry a3 offset3 w1)))))))))"

function attribute_loop ::
  "u8 list \<Rightarrow> int \<Rightarrow> stream_attribute_table option \<Rightarrow> u32 \<Rightarrow> int \<Rightarrow> world \<Rightarrow>
     fault + (loop_exit \<times> stream_attribute_table option \<times> world)" where
  "attribute_loop stream count table offset i w =
     (if i < count then
        (case attribute_entry stream table offset w of
           Inl e \<Rightarrow> Inl e
         | Inr (Jump x w1) \<Rightarrow> Inr (x, table, w1)
         | Inr (Entry attribute offset1 w1) \<Rightarrow>
             (case table of
                None \<Rightarrow> Inl NullDeref
              | Some t \<Rightarrow>
                  attribute_loop stream count
                    (Some (t\<lparr>t_attributes := attribute # t_attributes t\<rparr>))
                    offset1 (i + 1) w1))
      else Inr (Done, table, w))"
  by pat_completeness auto
termination
  by (relation "measure (\<lambda>(stream, count, table, offset, i, w). nat (count - i))") auto

declare attribute_loop.simps [simp del]

definition stream_attribute_table_create ::
  "u8 list option \<Rightarrow> int \<Rightarrow> world \<Rightarrow> fault + (stream_attribute_table option \<times> world)" where
  "stream_attribute_table_create stream_ptr sz w =
     (case stream_ptr of
        None \<Rightarrow> Inr (None, w)
      | Some stream \<Rightarrow>
          if sz = 0 then Inr (None, w)
          else
            (case calloc w of
               (None, w1) \<Rightarrow>
                 Inr (None, printf ''stream_attribute_table_create: failed to allocate table'' [] w1)
             | (Some b, w1) \<Rightarrow>
                 (case stream_attribute_table_start_read stream 0
                         \<lparr>at_block = b, at_start = None, t_attributes = []\<rparr> of
                    Inl e \<Rightarrow> Inl e
                  | Inr (n, table) \<Rightarrow>
                      (case at_start table of
                         None \<Rightarrow>
                           Inr (None,
                                stream_attribute_table_destroy (Some table)
                                  (printf ''stream_attribute_table_create: Error: missing table start at''
                                     [0 + n] w1))
                       | Some start \<Rightarrow>
                           (case load_u32 stream (start + 8) of
                              Inl e \<Rightarrow> Inl e
                            | Inr count \<Rightarrow>
                                (case attribute_loop stream (sint count) (Some table) (0 + n) 0 w1 of
                                   Inl e \<Rightarrow> Inl e
                                 | Inr (Done, table1, w2) \<Rightarrow> Inr (table1, w2)
                                 | Inr (Oom, table1, w2) \<Rightarrow>
                                     Inr (None, stream_attribute_table_destroy table1 w2)
                                 | Inr (Corrupt, table1, w2) \<Rightarrow>
                                     Inr (None, stream_attribute_table_destroy table1 w2)))))))"

text \<open>
  The call of \<open>symbol_create\<close> for one attribute; \<open>struct stream_attribute_data\<close> has its
  \<open>offset\<close> member at byte offset 14.
\<close>

definition attribute_symbol ::
  "u8 list \<Rightarrow> stream_attribute \<Rightarrow> world \<Rightarrow> fault + (symbol option \<times> world)" where
  "attribute_symbol stream attribute w =
     (case a_string attribute of
        None \<Rightarrow> Inl NullDeref
      | Some str \<Rightarrow>
          (case a_data attribute of
             None \<Rightarrow> Inl NullDeref
           | Some d \<Rightarrow>
               (case load_u16 stream (d + 2) of
                  Inl e \<Rightarrow> Inl e
                | Inr element_count \<Rightarrow>
                    (case load_u16 stream (d + 4) of
                       Inl e \<Rightarrow> Inl e
                     | Inr element_size \<Rightarrow>
                         (case load_u16 stream (d + 6) of
                            Inl e \<Rightarrow> Inl e
                          | Inr entry_count \<Rightarrow>
                              (case a_init attribute of
                                 Some init \<Rightarrow>
                                   Inr (symbol_create (str + 8) SYMBOL_ATTRIBUTE
                                          (ucast element_count * ucast element_size)
                                          (ucast element_count) (ucast entry_count)
                                          (Some (init + 12)) 1 w)
                               | None \<Rightarrow>
                                   Inr (symbol_create (str + 8) SYMBOL_ATTRIBUTE
                                          (ucast element_count * ucast element_size)
                                          (ucast element_count) (ucast entry_count)
                                          None 0 w)))))))"

fun attribute_symbols_loop ::
  "u8 list \<Rightarrow> int \<Rightarrow> symbol_array \<Rightarrow> int \<Rightarrow> stream_attribute list \<Rightarrow> world \<Rightarrow>
     fault + (bool \<times> symbol_array \<times> world)" where
  "attribute_symbols_loop stream count symbols i [] w = Inr (True, symbols, w)"
| "attribute_symbols_loop stream count symbols i (attribute # rest) w =
     (if i < count then
        (case attribute_symbol stream attribute w of
           Inl e \<Rightarrow> Inl e
         | Inr (None, w1) \<Rightarrow>
             Inr (False, symbols,
                  printf ''stream_attribute_table_to_symbols: Error: failed to create symbol'' [] w1)
         | Inr (Some s, w1) \<Rightarrow>
             if 0 \<le> i \<and> nat i < length (arr_elems symbols) then
               (case a_data attribute of
                  None \<Rightarrow> Inl NullDeref
                | Some d \<Rightarrow>
                    (case load_u16 stream (d + 14) of
                       Inl e \<Rightarrow> Inl e
                     | Inr off \<Rightarrow>
                         attribute_symbols_loop stream count
                           (symbols\<lparr>arr_elems :=
                              (arr_elems symbols)[nat i := Some (s\<lparr>sym_offset := ucast off\<rparr>)]\<rparr>)
                           (i + 1) rest w1))
             else Inl OutOfBounds)
      else Inr (True, symbols, w))"

definition stream_attribute_table_to_symbols ::
  "u8 list \<Rightarrow> stream_attribute_table option \<Rightarrow> int option \<Rightarrow> world \<Rightarrow>
     fault + (symbol_array option \<times> int option \<times> world)" where
  "stream_attribute_table_to_symbols stream table count w =
     (case table of
        None \<Rightarrow> Inr (None, count, w)
      | Some t \<Rightarrow>
          if count = None then Inr (None, count, w)
          else
            (case at_start t of
               None \<Rightarrow> Inl NullDeref
             | Some start \<Rightarrow>
                 (case load_u32 stream (start + 8) of
                    Inl e \<Rightarrow> Inl e
                  | Inr c \<Rightarrow>
                      if sint c = 0 then Inr (None, Some (sint c), w)
                      else
                        (case calloc_array (sint c) w of
                           (None, w1) \<Rightarrow>
                             Inr (None, Some 0,
                                  free None
                                    (printf ''stream_attribute_table_to_symbols: Error: failed to allocate symbols''
                                       [] w1))
                         | (Some symbols, w1) \<Rightarrow>
                             (case attribute_symbols_loop stream (sint c) symbols 0 (t_attributes t) w1 of
                                Inl e \<Rightarrow> Inl e
                              | Inr (True, symbols1, w2) \<Rightarrow> Inr (Some symbols1, Some (sint c), w2)
                              | Inr (False, symbols1, w2) \<Rightarrow>
                                  Inr (None, Some 0,
                                       free (Some (arr_block symbols1))
                                         (destroy_symbols (arr_elems symbols1) w2)))))))"

section \<open>Compiling and attaching a shader (program.c, lines 694--811)\<close>

text \<open>
  The compiler's result, \<open>struct mali_shader_binary\<close>, as far as program.c reads it.  The
  compiler itself is the vendor's \<open>__mali_compile_essl_shader\<close>; the model takes it as a
  parameter that returns the status and the filled-in binary.  The buffers inside the
  binary belong to the compiler and are not tracked by the world.
\<close>

datatype mali_shader_type = MALI_SHADER_VERTEX | MALI_SHADER_FRAGMENT

record mali_shader_binary =
  b_shader :: "u32 list"
  b_shader_size :: int
  b_uniform_stream :: "u8 list option"
  b_uniform_stream_size :: int
  b_attribute_stream :: "u8 list option"
  b_attribute_stream_size :: int

type_synonym compiler = "mali_shader_type \<Rightarrow> string \<Rightarrow> int \<times> mali_shader_binary"

definition premali_shader_compile ::
  "compiler \<Rightarrow> mali_shader_type \<Rightarrow> string \<Rightarrow> world \<Rightarrow> mali_shader_binary option \<times> world" where
  "premali_shader_compile cc type source w =
     (case calloc w of
        (None, w1) \<Rightarrow> (None, printf ''premali_shader_compile: Error: allocation failed'' [] w1)
      | (Some b, w1) \<Rightarrow>
          (case cc type source of (ret, binary) \<Rightarrow>
             if ret \<noteq> 0 then
               (None, free (Some b) (printf ''premali_shader_compile: compilation failed'' [] w1))
             else (Some binary, w1)))"

text \<open>
  The part of \<open>struct premali_state\<close> that the two attach functions write.

  Modelled from the spec: \<open>vs_info_attach_shader\<close> and \<open>plbu_info_attach_shader\<close> are
  defined in gp.c, which is not among the sources.  By section 4.7 of the specification
  they hand the machine-code segment to the command-stream builder; the model records the
  segment and the size they receive in \<open>vs_shader\<close> and \<open>plbu_shader\<close>.
\<close>

record premali_state =
  vertex_uniforms :: "symbol_array option"
  vertex_uniform_count :: int
  vertex_uniform_size :: int
  vertex_attributes :: "symbol_array option"
  vertex_attribute_count :: int
  fragment_uniforms :: "symbol_array option"
  fragment_uniform_count :: int
  fragment_uniform_size :: int
  vs_shader :: "(u32 list \<times> int) option"
  plbu_shader :: "(u32 list \<times> int) option"

definition vs_info_attach_shader :: "premali_state \<Rightarrow> u32 list \<Rightarrow> int \<Rightarrow> premali_state" where
  "vs_info_attach_shader state code sz = state\<lparr>vs_shader := Some (code, sz)\<rparr>"

definition plbu_info_attach_shader :: "premali_state \<Rightarrow> u32 list \<Rightarrow> int \<Rightarrow> premali_state" where
  "plbu_info_attach_shader state code sz = state\<lparr>plbu_shader := Some (code, sz)\<rparr>"

definition stream_memory :: "u8 list option \<Rightarrow> u8 list" where
  "stream_memory stream_ptr = (case stream_ptr of None \<Rightarrow> [] | Some stream \<Rightarrow> stream)"

text \<open>The two \<open>if (uniform_table)\<close> and \<open>if (attribute_table)\<close> blocks of the attach functions.\<close>

definition attach_vertex_uniforms ::
  "mali_shader_binary \<Rightarrow> stream_uniform_table option \<Rightarrow> premali_state \<Rightarrow> world \<Rightarrow>
     fault + (premali_state \<times> world)" where
  "attach_vertex_uniforms binary uniform_table state w =
     (if uniform_table \<noteq> None then
        (case stream_uniform_table_to_symbols (stream_memory (b_uniform_stream binary)) uniform_table
                (Some (vertex_uniform_count state)) (Some (vertex_uniform_size state)) w of
           Inl e \<Rightarrow> Inl e
         | Inr (symbols, count, space, w1) \<Rightarrow>
             Inr (state\<lparr>vertex_uniforms := symbols,
                        vertex_uniform_count := (case count of None \<Rightarrow> vertex_uniform_count state | Some c \<Rightarrow> c),
                        vertex_uniform_size := (case space of None \<Rightarrow> vertex_uniform_size state | Some s \<Rightarrow> s)\<rparr>,
                  stream_uniform_table_destroy uniform_table w1))
      else Inr (state, w))"

definition attach_vertex_attributes ::
  "mali_shader_binary \<Rightarrow> stream_attribute_table option \<Rightarrow> premali_state \<Rightarrow> world \<Rightarrow>
     fault + (premali_state \<times> world)" where
  "attach_vertex_attributes binary attribute_table state w =
     (if attribute_table \<noteq> None then
        (case stream_attribute_table_to_symbols (stream_memory (b_attribute_stream binary))
                attribute_table (Some (vertex_attribute_count state)) w of
           Inl e \<Rightarrow> Inl e
         | Inr (symbols, count, w1) \<Rightarrow>
             Inr (state\<lparr>vertex_attributes := symbols,
                        vertex_attribute_count := (case count of None \<Rightarrow> vertex_attribute_count state | Some c \<Rightarrow> c)\<rparr>,
                  stream_attribute_table_destroy attribute_table w1))
      else Inr (state, w))"

definition attach_fragment_uniforms ::
  "mali_shader_binary \<Rightarrow> stream_uniform_table option \<Rightarrow> premali_state \<Rightarrow> world \<Rightarrow>
     fault + (premali_state \<times> world)" where
  "attach_fragment_uniforms binary uniform_table state w =
     (if uniform_table \<noteq> None then
        (case stream_uniform_table_to_symbols (stream_memory (b_uniform_stream binary)) uniform_table
                (Some (fragment_uniform_count state)) (Some (fragment_uniform_size state)) w of
           Inl e \<Rightarrow> Inl e
         | Inr (symbols, count, space, w1) \<Rightarrow>
             Inr (state\<lparr>fragment_uniforms := symbols,
                        fragment_uniform_count := (case count of None \<Rightarrow> fragment_uniform_count state | Some c \<Rightarrow> c),
                        fragment_uniform_size := (case space of None \<Rightarrow> fragment_uniform_size state | Some s \<Rightarrow> s)\<rparr>,
                  stream_uniform_table_destroy uniform_table w1))
      else Inr (state, w))"

text \<open>
  The attach functions return the C result (0 or -1), the state and the world.  The integer
  divisions of \<open>shader_size\<close> truncate towards zero.
\<close>

definition vertex_shader_attach ::
  "compiler \<Rightarrow> premali_state \<Rightarrow> string \<Rightarrow> world \<Rightarrow> fault + (int \<times> premali_state \<times> world)" where
  "vertex_shader_attach cc state source w =
     (case premali_shader_compile cc MALI_SHADER_VERTEX source w of
        (None, w1) \<Rightarrow> Inr (- 1, state, w1)
      | (Some binary, w1) \<Rightarrow>
          (case stream_uniform_table_create (b_uniform_stream binary)
                  (b_uniform_stream_size binary) w1 of
             Inl e \<Rightarrow> Inl e
           | Inr (uniform_table, w2) \<Rightarrow>
               (case attach_vertex_uniforms binary uniform_table state w2 of
                  Inl e \<Rightarrow> Inl e
                | Inr (state1, w3) \<Rightarrow>
                    (case stream_attribute_table_create (b_attribute_stream binary)
                            (b_attribute_stream_size binary) w3 of
                       Inl e \<Rightarrow> Inl e
                     | Inr (attribute_table, w4) \<Rightarrow>
                         (case attach_vertex_attributes binary attribute_table state1 w4 of
                            Inl e \<Rightarrow> Inl e
                          | Inr (state2, w5) \<Rightarrow>
                              (let sz = b_shader_size binary sdiv 16 in
                               case vertex_shader_attributes_patch (b_shader binary) sz of
                                 Inl e \<Rightarrow> Inl e
                               | Inr code1 \<Rightarrow>
                                   (case vertex_shader_varyings_patch code1 sz of
                                      Inl e \<Rightarrow> Inl e
                                    | Inr code2 \<Rightarrow>
                                        Inr (0, vs_info_attach_shader state2 code2 sz, w5))))))))"

definition fragment_shader_attach ::
  "compiler \<Rightarrow> premali_state \<Rightarrow> string \<Rightarrow> world \<Rightarrow> fault + (int \<times> premali_state \<times> world)" where
  "fragment_shader_attach cc state source w =
     (case premali_shader_compile cc MALI_SHADER_FRAGMENT source w of
        (None, w1) \<Rightarrow> Inr (- 1, state, w1)
      | (Some binary, w1) \<Rightarrow>
          (case stream_uniform_table_create (b_uniform_stream binary)
                  (b_uniform_stream_size binary) w1 of
             Inl e \<Rightarrow> Inl e
           | Inr (uniform_table, w2) \<Rightarrow>
               (case attach_fragment_uniforms binary uniform_table state w2 of
                  Inl e \<Rightarrow> Inl e
                | Inr (state1, w3) \<Rightarrow>
                    Inr (0, plbu_info_attach_shader state1 (b_shader binary)
                              (b_shader_size binary sdiv 4), w3))))"

section \<open>Example streams\<close>


text \<open>
  An attribute stream with two entries, \<open>in_vertex\<close> (4 elements of 4 bytes) and
  \<open>in_coord\<close> (2 elements of 4 bytes).  The chunks start at bytes 0 (table start), 12 and
  56 (entry starts), 20 and 64 (names), 40 and 84 (data records).
\<close>

definition example_attribute_stream :: "u8 list" where
  "example_attribute_stream =
     [0x53, 0x41, 0x54, 0x54,  0, 0, 0, 0,  2, 0, 0, 0,
      0x56, 0x41, 0x54, 0x54,  0, 0, 0, 0,
      0x53, 0x54, 0x52, 0x49,  12, 0, 0, 0,
        0x69, 0x6E, 0x5F, 0x76, 0x65, 0x72, 0x74, 0x65, 0x78, 0, 0, 0,
      4, 0,  4, 0,  4, 0,  0, 0,  16, 0,  0, 2,  0, 0,  0, 0,
      0x56, 0x41, 0x54, 0x54,  0, 0, 0, 0,
      0x53, 0x54, 0x52, 0x49,  12, 0, 0, 0,
        0x69, 0x6E, 0x5F, 0x63, 0x6F, 0x6F, 0x72, 0x64, 0, 0, 0, 0,
      4, 0,  2, 0,  4, 0,  0, 0,  8, 0,  0, 2,  0, 0,  1, 0]"

text \<open>
  An attribute stream with one entry whose data record is followed by an init chunk
  (\<open>VINI\<close>, at byte 48), laid out as in the uniform stream.
\<close>

definition attribute_stream_with_init :: "u8 list" where
  "attribute_stream_with_init =
     [0x53, 0x41, 0x54, 0x54,  0, 0, 0, 0,  1, 0, 0, 0,
      0x56, 0x41, 0x54, 0x54,  0, 0, 0, 0,
      0x53, 0x54, 0x52, 0x49,  4, 0, 0, 0,  0x61, 0, 0, 0,
      4, 0,  4, 0,  4, 0,  0, 0,  16, 0,  0, 2,  0, 0,  0, 0,
      0x56, 0x49, 0x4E, 0x49,  20, 0, 0, 0,  4, 0, 0, 0,
        0, 0, 0x80, 0x3F,  0, 0, 0, 0,  0, 0, 0, 0,  0, 0, 0x80, 0x3F]"

text \<open>
  A uniform stream that announces one entry and then holds no entry-start chunk, one that
  holds the entry-start chunk and then no name chunk, and a uniform stream with one
  well-formed entry (the first entry of the example above, followed by four bytes that are
  not an init tag).
\<close>

definition uniform_stream_missing_name :: "u8 list" where
  "uniform_stream_missing_name =
     [0x53, 0x55, 0x4E, 0x49,  0, 0, 0, 0,  1, 0, 0, 0,  0, 0, 0, 0,
      0x56, 0x55, 0x4E, 0x49,  0, 0, 0, 0,
      0, 0, 0, 0]"

definition uniform_stream_missing_entry :: "u8 list" where
  "uniform_stream_missing_entry =
     [0x53, 0x55, 0x4E, 0x49,  0, 0, 0, 0,  1, 0, 0, 0,  0, 0, 0, 0,
      0, 0, 0, 0]"

definition uniform_stream_one_entry :: "u8 list" where
  "uniform_stream_one_entry =
     [0x53, 0x55, 0x4E, 0x49,  0, 0, 0, 0,  1, 0, 0, 0,  64, 0, 0, 0,
      0x56, 0x55, 0x4E, 0x49,  0, 0, 0, 0,
      0x53, 0x54, 0x52, 0x49,  4, 0, 0, 0,  0x6D, 0x76, 0x70, 0,
      4, 0,  16, 0,  4, 0,  0, 0,  16, 0,  0, 2,  0, 0,  0, 0,  0, 0,  0xFF, 0xFF,
      0, 0, 0, 0]"

text \<open>
  A world with nothing allocated, in which every allocation succeeds, and one in which the
  first allocation succeeds and the second fails.
\<close>

definition world0 :: world where
  "world0 = \<lparr>live = [], next_block = 1, alloc_script = [], messages = []\<rparr>"

definition world_second_alloc_fails :: world where
  "world_second_alloc_fails =
     \<lparr>live = [], next_block = 1, alloc_script = [True, False], messages = []\<rparr>"







text \<open>
  An empty driver state; a compiler that fails; and a compiler that succeeds with one
  instruction of machine code, a uniform stream that does not begin with a table-start
  chunk, and no attribute stream.
\<close>

definition state0 :: premali_state where
  "state0 =
     \<lparr>vertex_uniforms = None, vertex_uniform_count = 0, vertex_uniform_size = 0,
        vertex_attributes = None, vertex_attribute_count = 0,
        fragment_uniforms = None, fragment_uniform_count = 0, fragment_uniform_size = 0,
        vs_shader = None, plbu_shader = None\<rparr>"

definition compiler_fails :: compiler where
  "compiler_fails type source =
     (1, \<lparr>b_shader = [], b_shader_size = 0, b_uniform_stream = None,
           b_uniform_stream_size = 0, b_attribute_stream = None,
           b_attribute_stream_size = 0\<rparr>)"

definition binary_corrupt_uniforms :: mali_shader_binary where
  "binary_corrupt_uniforms =
     \<lparr>b_shader = [0, 0x40000000, 0, 0], b_shader_size = 16,
        b_uniform_stream = Some [0, 0, 0, 0], b_uniform_stream_size = 4,
        b_attribute_stream = None, b_attribute_stream_size = 0\<rparr>"

definition compiler_corrupt_uniforms :: compiler where
  "compiler_corrupt_uniforms type source = (0, binary_corrupt_uniforms)"

text \<open>
  A compiler that succeeds with the same machine code, no uniform stream, and an attribute
  stream that does not begin with a table-start chunk.
\<close>

definition binary_corrupt_attributes :: mali_shader_binary where
  "binary_corrupt_attributes =
     \<lparr>b_shader = [0, 0x40000000, 0, 0], b_shader_size = 16,
        b_uniform_stream = None, b_uniform_stream_size = 0,
        b_attribute_stream = Some [0, 0, 0, 0], b_attribute_stream_size = 4\<rparr>"

definition compiler_corrupt_attributes :: compiler where
  "compiler_corrupt_attributes type source = (0, binary_corrupt_attributes)"

section \<open>Bit fields of an instruction\<close>

text \<open>
  The slot index of a field held in bits 26 to 29 of a word (its presence flag is bit 30),
  and the slot index of the field that straddles two words: bit 31 of the first word is its
  lowest bit, bits 0 to 2 of the second word are its upper three bits (the presence flag is
  bit 3 of the second word).
\<close>

definition slot26 :: "u32 \<Rightarrow> u32" where
  "slot26 w = take_bit 4 (drop_bit 26 w)"

definition cross_slot :: "u32 \<Rightarrow> u32 \<Rightarrow> u32" where
  "cross_slot w2 w3 = drop_bit 31 w2 OR push_bit 1 (take_bit 3 w3)"

text \<open>
  What one loop iteration does to the words it touches: \<open>remap26\<close> is the rewrite of a
  field at bits 26 to 30 (the body of the attribute pass and the first half of the varying
  pass), \<open>remap_cross\<close> the rewrite of the straddling field.
\<close>

definition remap26 :: "u32 \<Rightarrow> u32" where
  "remap26 w =
     (let tmp = drop_bit 26 w AND 0x1F in
      if tmp AND 0x10 = 0 then w
      else (w AND NOT (push_bit 26 0x0F)) OR push_bit 26 (if tmp AND 0x0F = 0 then 1 else 0))"

definition remap_cross :: "u32 \<times> u32 \<Rightarrow> u32 \<times> u32" where
  "remap_cross p =
     (case p of (w2, w3) \<Rightarrow>
       (let tmp = (drop_bit 31 w2 AND 0x01) OR (push_bit 1 w3 AND 0x1E) in
        if tmp AND 0x10 \<noteq> 0 then
          (let t = (if tmp AND 0x0F = 0 then 1 else 0 :: u32) in
           ((w2 AND NOT (push_bit 31 0x01)) OR push_bit 31 t,
            (w3 AND NOT 0x07) OR signed_drop_bit 1 t))
        else (w2, w3)))"

definition vary_words :: "u32 \<Rightarrow> u32 \<Rightarrow> u32 \<times> u32" where
  "vary_words w2 w3 = remap_cross (remap26 w2, w3)"

definition attr_result :: "u32 list \<Rightarrow> nat \<Rightarrow> u32" where
  "attr_result shader k = (if k mod 4 = 1 then remap26 (shader ! k) else shader ! k)"

definition vary_result :: "u32 list \<Rightarrow> nat \<Rightarrow> u32" where
  "vary_result shader k =
     (if k mod 4 = 2 then fst (vary_words (shader ! k) (shader ! (k + 1)))
      else if k mod 4 = 3 then snd (vary_words (shader ! (k - 1)) (shader ! k))
      else shader ! k)"


section \<open>A symbol and the entry it is built from\<close>


section \<open>Entries in the order in which they are read\<close>

text \<open>
  \<open>uniforms_read\<close> and \<open>attributes_read\<close> run the same iteration as the loops of the table
  parsers and list the finished entries in the order in which they are read from the
  stream, the first entry first; they stop where the loop would leave.
\<close>

function uniforms_read ::
  "u8 list \<Rightarrow> int \<Rightarrow> stream_uniform_table option \<Rightarrow> u32 \<Rightarrow> int \<Rightarrow> world \<Rightarrow> stream_uniform list" where
  "uniforms_read stream count table offset i w =
     (if i < count then
        (case uniform_entry stream table offset w of
           Inr (Entry uniform offset1 w1) \<Rightarrow>
             uniform # uniforms_read stream count table offset1 (i + 1) w1
         | _ \<Rightarrow> [])
      else [])"
  by pat_completeness auto
termination
  by (relation "measure (\<lambda>(stream, count, table, offset, i, w). nat (count - i))") auto

declare uniforms_read.simps [simp del]

function attributes_read ::
  "u8 list \<Rightarrow> int \<Rightarrow> stream_attribute_table option \<Rightarrow> u32 \<Rightarrow> int \<Rightarrow> world \<Rightarrow> stream_attribute list" where
  "attributes_read stream count table offset i w =
     (if i < count then
        (case attribute_entry stream table offset w of
           Inr (Entry attribute offset1 w1) \<Rightarrow>
             attribute # attributes_read stream count table offset1 (i + 1) w1
         | _ \<Rightarrow> [])
      else [])"
  by pat_completeness auto
termination
  by (relation "measure (\<lambda>(stream, count, table, offset, i, w). nat (count - i))") auto

declare attributes_read.simps [simp del]


section \<open>Properties of the instruction patcher\<close>

subsection \<open>Word-level facts\<close>

lemma consts_as_masks:
  "(0x1F::u32) = mask 5" "(0x0F::u32) = mask 4" "(0x10::u32) = 2 ^ 4"
  "(0x1E::u32) = push_bit 1 (mask 4)" "(0x07::u32) = mask 3"
  by (simp_all add: mask_eq_exp_minus_1)

lemma flag26: "(drop_bit 26 w AND 0x1F) AND (0x10::u32) = 0 \<longleftrightarrow> \<not> bit w 30"
  unfolding consts_as_masks and_exp_eq_0_iff_not_bit
  by (simp add: bit_simps)

lemma slot26_alt: "(drop_bit 26 w AND 0x1F) AND (0x0F::u32) = slot26 w"
  unfolding slot26_def consts_as_masks
  by (rule bit_word_eqI) (auto simp add: bit_simps)

lemma bit_remap26:
  "bit (remap26 w) n \<longleftrightarrow>
     (if bit w 30 \<and> 26 \<le> n \<and> n \<le> 29 then n = 26 \<and> slot26 w = 0 else bit w n)"
  unfolding remap26_def Let_def flag26 slot26_alt
  unfolding consts_as_masks
  by (auto simp add: bit_simps dest: bit_imp_le_length)

lemma remap26_unflagged: "\<not> bit w 30 \<Longrightarrow> remap26 w = w"
  by (simp add: remap26_def flag26)

lemma slot26_remap26:
  "bit w 30 \<Longrightarrow> slot26 (remap26 w) = (if slot26 w = 0 then 1 else 0)"
  by (rule bit_word_eqI) (auto simp add: slot26_def [of "remap26 w"] bit_simps bit_remap26)

lemma bit_times2: "bit (w * 2 :: u32) n \<longleftrightarrow> n \<noteq> 0 \<and> n < 32 \<and> bit w (n - 1)"
  using bit_double_iff [of w n] by (auto simp add: mult.commute bit_simps dest: bit_imp_le_length)

lemma bit_top: "bit (2147483648 :: u32) n \<longleftrightarrow> n = 31"
proof -
  have "(2147483648 :: u32) = 2 ^ 31" by simp
  then show ?thesis by (simp only: bit_exp_iff) (auto simp add: bit_simps)
qed

lemma bit_top_int: "bit (2147483648 :: int) n \<longleftrightarrow> n = 31"
proof -
  have "(2147483648 :: int) = 2 ^ 31" by simp
  then show ?thesis by (simp only: bit_exp_iff) (auto simp add: bit_simps)
qed

lemma flagX: "((drop_bit 31 w2 AND 0x01) OR (push_bit 1 w3 AND 0x1E)) AND (0x10::u32) = 0 \<longleftrightarrow> \<not> bit w3 3"
  unfolding consts_as_masks and_exp_eq_0_iff_not_bit
  by (simp add: bit_simps bit_times2)

lemma slotX_alt: "((drop_bit 31 w2 AND 0x01) OR (push_bit 1 w3 AND 0x1E)) AND (0x0F::u32) = cross_slot w2 w3"
  unfolding cross_slot_def consts_as_masks
  by (rule bit_word_eqI) (auto simp add: bit_simps bit_times2 dest: bit_imp_le_length)

lemma sdrop_t: "signed_drop_bit 1 (if c then 1 else 0 :: u32) = 0"
  by simp

lemma bit_remap_cross_fst:
  "bit (fst (remap_cross (w2, w3))) n \<longleftrightarrow>
     (if bit w3 3 \<and> n = 31 then cross_slot w2 w3 = 0 else bit w2 n)"
  unfolding remap_cross_def Let_def flagX slotX_alt prod.case
  unfolding consts_as_masks
  by (auto simp add: bit_simps bit_top bit_top_int dest: bit_imp_le_length)

lemma bit_remap_cross_snd:
  "bit (snd (remap_cross (w2, w3))) n \<longleftrightarrow>
     (if bit w3 3 \<and> n < 3 then False else bit w3 n)"
  unfolding remap_cross_def Let_def flagX slotX_alt prod.case sdrop_t
  unfolding consts_as_masks
  by (auto simp add: bit_simps dest: bit_imp_le_length)

lemma cross_slot_remap:
  "bit w3 3 \<Longrightarrow> cross_slot (fst (remap_cross (w2, w3))) (snd (remap_cross (w2, w3)))
     = (if cross_slot w2 w3 = 0 then 1 else 0)"
  by (rule bit_word_eqI)
     (auto simp add: cross_slot_def [of "fst _"] bit_simps bit_times2 bit_remap_cross_fst bit_remap_cross_snd dest: bit_imp_le_length)

lemma remap_cross_unflagged: "\<not> bit w3 3 \<Longrightarrow> remap_cross (w2, w3) = (w2, w3)"
  unfolding remap_cross_def Let_def prod.case flagX by simp

lemma bit_vary_fst:
  "bit (fst (vary_words w2 w3)) n \<longleftrightarrow>
     (if bit w3 3 \<and> n = 31 then cross_slot w2 w3 = 0
      else if bit w2 30 \<and> 26 \<le> n \<and> n \<le> 29 then n = 26 \<and> slot26 w2 = 0
      else bit w2 n)"
proof -
  have "cross_slot (remap26 w2) w3 = cross_slot w2 w3"
    by (rule bit_word_eqI) (simp add: cross_slot_def bit_simps bit_remap26)
  then show ?thesis
    by (simp add: vary_words_def bit_remap_cross_fst bit_remap26)
qed

lemma bit_vary_snd:
  "bit (snd (vary_words w2 w3)) n \<longleftrightarrow> (if bit w3 3 \<and> n < 3 then False else bit w3 n)"
  by (simp only: vary_words_def bit_remap_cross_snd)

lemma slot26_vary:
  "slot26 (fst (vary_words w2 w3)) =
     (if bit w2 30 then (if slot26 w2 = 0 then 1 else 0) else slot26 w2)"
proof -
  have "slot26 (fst (vary_words w2 w3)) = slot26 (remap26 w2)"
    by (rule bit_word_eqI) (simp add: slot26_def bit_simps bit_vary_fst bit_remap26)
  then show ?thesis
    by (simp add: slot26_remap26 remap26_unflagged)
qed

lemma cross_slot_vary:
  "cross_slot (fst (vary_words w2 w3)) (snd (vary_words w2 w3)) =
     (if bit w3 3 then (if cross_slot w2 w3 = 0 then 1 else 0) else cross_slot w2 w3)"
proof -
  have c: "cross_slot (remap26 w2) w3 = cross_slot w2 w3"
    by (rule bit_word_eqI) (simp add: cross_slot_def bit_simps bit_remap26)
  show ?thesis
  proof (cases "bit w3 3")
    case True
    then show ?thesis
      using cross_slot_remap [of w3 "remap26 w2"] by (simp add: vary_words_def c)
  next
    case False
    then have "remap_cross (remap26 w2, w3) = (remap26 w2, w3)"
      by (rule remap_cross_unflagged)
    then show ?thesis using False by (simp add: vary_words_def c)
  qed
qed

lemma remap26_twice:
  "bit w 30 \<Longrightarrow> slot26 (remap26 (remap26 w)) = (if slot26 w = 0 then 0 else 1)"
proof -
  assume f: "bit w 30"
  then have "bit (remap26 w) 30" by (simp add: bit_remap26)
  then have "slot26 (remap26 (remap26 w)) = (if slot26 (remap26 w) = 0 then 1 else 0)"
    by (rule slot26_remap26)
  then show ?thesis using slot26_remap26 [OF f] by simp
qed

subsection \<open>Index arithmetic\<close>

lemma insn_words: "k div 4 = (m::nat) \<Longrightarrow> k = 4 * m \<or> k = 4 * m + 1 \<or> k = 4 * m + 2 \<or> k = 4 * m + 3"
proof -
  assume d: "k div 4 = m"
  have e: "k = 4 * m + k mod 4" using d div_mult_mod_eq [of k 4] by simp
  have "k mod 4 < 4" by simp
  then have "k mod 4 = 0 \<or> k mod 4 = 1 \<or> k mod 4 = 2 \<or> k mod 4 = 3" by linarith
  with e show ?thesis by linarith
qed

lemma other_insn: "k div 4 \<noteq> (i::nat) \<Longrightarrow> k \<noteq> 4 * i + 2 \<and> k \<noteq> 4 * i + 3"
  by auto

lemma next_word: "k mod 4 = 2 \<Longrightarrow> (k + 1) div 4 = k div (4::nat)"
proof -
  assume m: "k mod 4 = 2"
  have "k = 4 * (k div 4) + 2" using m div_mult_mod_eq [of k 4] by simp
  then have "k + 1 = 4 * (k div 4) + 3" by simp
  then have "(k + 1) div 4 = (4 * (k div 4) + 3) div 4" by simp
  then show ?thesis by simp
qed

lemma prev_word: "k mod 4 = 3 \<Longrightarrow> (k - 1) div 4 = k div (4::nat)"
proof -
  assume m: "k mod 4 = 3"
  have "k = 4 * (k div 4) + 3" using m div_mult_mod_eq [of k 4] by simp
  then have "k - 1 = 4 * (k div 4) + 2" by simp
  then have "(k - 1) div 4 = (4 * (k div 4) + 2) div 4" by simp
  then show ?thesis by simp
qed

lemma word2_mod: "(4 * n + 2) mod 4 = (2::nat)"
  by (simp only: mod_mult_self4) simp

lemma word3_mod: "(4 * n + 3) mod 4 = (3::nat)"
  by (simp only: mod_mult_self4) simp

lemma nth_two_updates:
  "k \<noteq> j \<and> k \<noteq> j' \<Longrightarrow> (xs[j := a, j' := b]) ! k = xs ! k"
  by simp

lemma word0_mod: "(4 * n) mod 4 = (0::nat)" by simp

lemma word1_mod: "(4 * n + 1) mod 4 = (1::nat)"
  by (simp only: mod_mult_self4) simp

lemma word_div:
  "(4 * n) div 4 = (n::nat)" "(4 * n + 1) div 4 = n" "(4 * n + 2) div 4 = n" "(4 * n + 3) div 4 = n"
  by simp_all

lemma next_word_bound:
  assumes "k mod 4 = 2" "k div 4 < m" "4 * m \<le> (l::nat)"
  shows "k + 1 < l"
proof -
  have "k = 4 * (k div 4) + 2" using assms(1) div_mult_mod_eq [of k 4] by simp
  with assms(2,3) show ?thesis by linarith
qed

subsection \<open>The loops\<close>

lemma attributes_patch_insn_eq:
  "4 * i + 1 < length shader \<Longrightarrow>
   attributes_patch_insn shader i = Inr (shader[4 * i + 1 := remap26 (shader ! (4 * i + 1))])"
  by (simp add: attributes_patch_insn_def remap26_def Let_def)

lemma attributes_patch_loop_nth:
  "0 \<le> i \<Longrightarrow> 4 * nat sz \<le> length shader \<Longrightarrow>
   \<exists>shader'. attributes_patch_loop shader sz i = Inr shader' \<and> length shader' = length shader \<and>
     (\<forall>k < length shader. shader' ! k =
        (if nat i \<le> k div 4 \<and> k div 4 < nat sz then attr_result shader k else shader ! k))"
proof (induction shader sz i rule: attributes_patch_loop.induct)
  case (1 shader sz i)
  show ?case
  proof (cases "i < sz")
    case False
    then show ?thesis using "1.prems"
      by (subst attributes_patch_loop.simps) auto
  next
    case True
    let ?j = "4 * nat i + 1"
    let ?s1 = "shader[?j := remap26 (shader ! ?j)]"
    from True "1.prems" have j: "?j < length shader" by linarith
    then have insn: "attributes_patch_insn shader (nat i) = Inr ?s1"
      by (rule attributes_patch_insn_eq)
    from "1.IH" [OF True insn] "1.prems"
    obtain shader' where r: "attributes_patch_loop ?s1 sz (i + 1) = Inr shader'"
      and l: "length shader' = length shader"
      and n: "\<forall>k < length shader. shader' ! k =
        (if nat (i + 1) \<le> k div 4 \<and> k div 4 < nat sz then attr_result ?s1 k else ?s1 ! k)"
      by auto
    have "attributes_patch_loop shader sz i = Inr shader'"
      using True insn r by (subst attributes_patch_loop.simps) simp
    moreover have "shader' ! k =
        (if nat i \<le> k div 4 \<and> k div 4 < nat sz then attr_result shader k else shader ! k)"
      if k: "k < length shader" for k
    proof (cases "k = ?j")
      case True
      have d: "?j div 4 = nat i" and m: "?j mod 4 = 1" by simp_all
      have "nat i < nat sz" using \<open>i < sz\<close> "1.prems"(1) by simp
      moreover have "shader' ! ?j = ?s1 ! ?j"
        using n [rule_format, OF j] "1.prems"(1) by (simp only: d) (simp add: nat_add_distrib)
      ultimately show ?thesis using j
        by (simp only: True d m attr_result_def) simp
    next
      case False
      then have "?s1 ! k = shader ! k" by simp
      moreover have "attr_result ?s1 k = attr_result shader k"
        using False by (simp add: attr_result_def)
      moreover have "k div 4 = nat i \<Longrightarrow> k mod 4 \<noteq> 1"
        using False by presburger
      ultimately show ?thesis using n k "1.prems"(1)
        by (auto simp add: attr_result_def nat_add_distrib)
    qed
    ultimately show ?thesis using l by blast
  qed
qed

lemma varyings_patch_insn_eq:
  assumes "4 * i + 3 < length shader"
  shows "varyings_patch_insn shader i =
     Inr (shader[4 * i + 2 := fst (vary_words (shader ! (4 * i + 2)) (shader ! (4 * i + 3))),
                 4 * i + 3 := snd (vary_words (shader ! (4 * i + 2)) (shader ! (4 * i + 3)))])"
proof -
  let ?w2 = "shader ! (4 * i + 2)" and ?w3 = "shader ! (4 * i + 3)"
  let ?sA = "shader[4 * i + 2 := remap26 ?w2]"
  have A: "(if (drop_bit 26 ?w2 AND 0x1F) AND 0x10 \<noteq> 0 then
             (shader[4 * i + 2 := ?w2 AND NOT (push_bit 26 0x0F)])
               [4 * i + 2 := (shader[4 * i + 2 := ?w2 AND NOT (push_bit 26 0x0F)]) ! (4 * i + 2)
                   OR push_bit 26 (if (drop_bit 26 ?w2 AND 0x1F) AND 0x0F = 0 then 1 else 0)]
           else shader) = ?sA"
    using assms by (simp add: remap26_def Let_def)
  have sA2: "?sA ! (4 * i + 2) = remap26 ?w2" and sA3: "?sA ! (4 * i + 3) = ?w3"
    using assms by simp_all
  let ?tmpB = "(drop_bit 31 (remap26 ?w2) AND 0x01) OR (push_bit 1 ?w3 AND 0x1E)"
  show ?thesis
  proof (cases "?tmpB AND 0x10 = 0")
    case True
    then have r: "vary_words ?w2 ?w3 = (remap26 ?w2, ?w3)"
      by (simp add: vary_words_def remap_cross_def)
    have "varyings_patch_insn shader i = Inr ?sA"
      unfolding varyings_patch_insn_def Let_def A sA2 sA3
      using assms True by simp
    moreover have "?sA = shader[4 * i + 2 := remap26 ?w2, 4 * i + 3 := ?w3]"
      using assms by (auto simp add: list_eq_iff_nth_eq nth_list_update)
    ultimately show ?thesis by (simp only: r fst_conv snd_conv)
  next
    case False
    let ?t = "if ?tmpB AND 0x0F = 0 then 1 else 0 :: u32"
    let ?a = "(remap26 ?w2 AND NOT (push_bit 31 0x01)) OR push_bit 31 ?t"
    let ?b = "(?w3 AND NOT 0x07) OR signed_drop_bit 1 ?t"
    from False have r: "vary_words ?w2 ?w3 = (?a, ?b)"
      by (simp add: vary_words_def remap_cross_def Let_def)
    let ?s1 = "?sA[4 * i + 2 := ?sA ! (4 * i + 2) AND NOT (push_bit 31 0x01)]"
    let ?s2 = "?s1[4 * i + 3 := ?s1 ! (4 * i + 3) AND NOT 0x07]"
    let ?s3 = "?s2[4 * i + 2 := ?s2 ! (4 * i + 2) OR push_bit 31 ?t]"
    let ?s4 = "?s3[4 * i + 3 := ?s3 ! (4 * i + 3) OR signed_drop_bit 1 ?t]"
    have "varyings_patch_insn shader i = Inr ?s4"
      unfolding varyings_patch_insn_def Let_def A sA2 sA3
      using assms False by simp
    moreover have "?s4 = shader[4 * i + 2 := ?a, 4 * i + 3 := ?b]"
      using assms by (auto simp add: list_eq_iff_nth_eq nth_list_update)
    ultimately show ?thesis by (simp only: r fst_conv snd_conv)
  qed
qed

lemma vary_result_cong:
  assumes d: "k div 4 \<noteq> i"
  shows "vary_result (shader[4 * i + 2 := a, 4 * i + 3 := b]) k = vary_result shader k"
proof -
  let ?s = "shader[4 * i + 2 := a, 4 * i + 3 := b]"
  have k: "?s ! k = shader ! k"
    by (rule nth_two_updates, rule other_insn, rule d)
  have k1: "?s ! (k + 1) = shader ! (k + 1)" if "k mod 4 = 2"
    by (rule nth_two_updates, rule other_insn) (simp only: next_word [OF that] d not_False_eq_True)
  have k2: "?s ! (k - 1) = shader ! (k - 1)" if "k mod 4 = 3"
    by (rule nth_two_updates, rule other_insn) (simp only: prev_word [OF that] d not_False_eq_True)
  consider "k mod 4 = 2" | "k mod 4 = 3" | "k mod 4 \<noteq> 2 \<and> k mod 4 \<noteq> 3" by blast
  then show ?thesis
  proof cases
    case 1 show ?thesis by (simp only: vary_result_def 1 k k1 [OF 1]) simp
  next
    case 2 show ?thesis by (simp only: vary_result_def 2 k k2 [OF 2]) simp
  next
    case 3 show ?thesis by (simp only: vary_result_def k) (simp add: 3)
  qed
qed

lemma varyings_patch_loop_nth:
  "0 \<le> i \<Longrightarrow> 4 * nat sz \<le> length shader \<Longrightarrow>
   \<exists>shader'. varyings_patch_loop shader sz i = Inr shader' \<and> length shader' = length shader \<and>
     (\<forall>k < length shader. shader' ! k =
        (if nat i \<le> k div 4 \<and> k div 4 < nat sz then vary_result shader k else shader ! k))"
proof (induction shader sz i rule: varyings_patch_loop.induct)
  case (1 shader sz i)
  show ?case
  proof (cases "i < sz")
    case False
    then show ?thesis using "1.prems"
      by (subst varyings_patch_loop.simps) auto
  next
    case True
    let ?j = "4 * nat i + 2"
    let ?j' = "4 * nat i + 3"
    let ?r = "vary_words (shader ! ?j) (shader ! ?j')"
    let ?s1 = "shader[?j := fst ?r, ?j' := snd ?r]"
    from True "1.prems" have j: "?j' < length shader" by linarith
    then have insn: "varyings_patch_insn shader (nat i) = Inr ?s1"
      by (rule varyings_patch_insn_eq)
    have lt: "nat i < nat sz" using True "1.prems"(1) by simp
    from "1.IH" [OF True insn] "1.prems"
    obtain shader' where r: "varyings_patch_loop ?s1 sz (i + 1) = Inr shader'"
      and l: "length shader' = length shader"
      and n: "\<forall>k < length shader. shader' ! k =
        (if nat i + 1 \<le> k div 4 \<and> k div 4 < nat sz then vary_result ?s1 k else ?s1 ! k)"
      by (auto simp add: nat_add_distrib)
    have "varyings_patch_loop shader sz i = Inr shader'"
      using True insn r by (subst varyings_patch_loop.simps) simp
    moreover have "shader' ! k =
        (if nat i \<le> k div 4 \<and> k div 4 < nat sz then vary_result shader k else shader ! k)"
      if k: "k < length shader" for k
    proof (cases "k div 4 = nat i")
      case True
      then have s: "shader' ! k = ?s1 ! k"
        using n [rule_format, OF k] by simp
      from insn_words [OF True] consider "k = 4 * nat i" | "k = 4 * nat i + 1" | "k = ?j" | "k = ?j'"
        by blast
      then have "?s1 ! k = vary_result shader k"
      proof cases
        case 1 then show ?thesis by (simp add: vary_result_def)
      next
        case 2 then show ?thesis by (simp add: vary_result_def)
      next
        case 3
        have m: "?j mod 4 = 2" by (rule word2_mod)
        have e: "?j + 1 = ?j'" by simp
        have "vary_result shader ?j = fst ?r"
          unfolding vary_result_def by (simp only: m e) simp
        moreover have "?s1 ! ?j = fst ?r" using j by simp
        ultimately show ?thesis by (simp only: 3)
      next
        case 4
        have m: "?j' mod 4 = 3" by (rule word3_mod)
        have e: "?j' - 1 = ?j" by simp
        have "vary_result shader ?j' = snd ?r"
          unfolding vary_result_def by (simp only: m e) simp
        moreover have "?s1 ! ?j' = snd ?r" using j by simp
        ultimately show ?thesis by (simp only: 4)
      qed
      then show ?thesis using s True lt by simp
    next
      case False
      then have "k \<noteq> ?j \<and> k \<noteq> ?j'" by (rule other_insn)
      then have "?s1 ! k = shader ! k" by (rule nth_two_updates)
      moreover have "vary_result ?s1 k = vary_result shader k"
        using False by (rule vary_result_cong)
      ultimately show ?thesis using n [rule_format, OF k] False
        by auto
    qed
    ultimately show ?thesis using l by blast
  qed
qed

lemma attributes_patch_nth:
  assumes "4 * nat sz \<le> length shader"
  shows "\<exists>shader'. vertex_shader_attributes_patch shader sz = Inr shader' \<and>
    length shader' = length shader \<and>
    (\<forall>k < length shader. shader' ! k =
        (if k mod 4 = 1 \<and> k div 4 < nat sz then remap26 (shader ! k) else shader ! k))"
  using attributes_patch_loop_nth [of 0 sz shader] assms
  unfolding vertex_shader_attributes_patch_def attr_result_def
  by (elim exE conjE | simp)+ 

lemma varyings_patch_nth:
  assumes "4 * nat sz \<le> length shader"
  shows "\<exists>shader'. vertex_shader_varyings_patch shader sz = Inr shader' \<and>
    length shader' = length shader \<and>
    (\<forall>k < length shader. shader' ! k =
        (if k div 4 < nat sz then vary_result shader k else shader ! k))"
  using varyings_patch_loop_nth [of 0 sz shader] assms
  unfolding vertex_shader_varyings_patch_def
  by simp

lemma vary_result_insn:
  "vary_result shader (4 * i) = shader ! (4 * i)"
  "vary_result shader (4 * i + 1) = shader ! (4 * i + 1)"
  "vary_result shader (4 * i + 2) = fst (vary_words (shader ! (4 * i + 2)) (shader ! (4 * i + 3)))"
  "vary_result shader (4 * i + 3) = snd (vary_words (shader ! (4 * i + 2)) (shader ! (4 * i + 3)))"
proof -
  show "vary_result shader (4 * i) = shader ! (4 * i)"
    unfolding vary_result_def by (simp only: word0_mod) simp
  show "vary_result shader (4 * i + 1) = shader ! (4 * i + 1)"
    unfolding vary_result_def by (simp only: word1_mod) simp
  have e: "4 * i + 2 + 1 = 4 * i + 3" by simp
  show "vary_result shader (4 * i + 2) = fst (vary_words (shader ! (4 * i + 2)) (shader ! (4 * i + 3)))"
    unfolding vary_result_def by (simp only: word2_mod e) simp
  have e': "4 * i + 3 - 1 = 4 * i + 2" by simp
  show "vary_result shader (4 * i + 3) = snd (vary_words (shader ! (4 * i + 2)) (shader ! (4 * i + 3)))"
    unfolding vary_result_def by (simp only: word3_mod e') simp
qed

lemma varyings_patch_insn_words:
  assumes "4 * nat sz \<le> length shader"
  shows "\<exists>shader'. vertex_shader_varyings_patch shader sz = Inr shader' \<and>
    length shader' = length shader \<and>
    (\<forall>i < nat sz.
       shader' ! (4 * i) = shader ! (4 * i) \<and>
       shader' ! (4 * i + 1) = shader ! (4 * i + 1) \<and>
       shader' ! (4 * i + 2) = fst (vary_words (shader ! (4 * i + 2)) (shader ! (4 * i + 3))) \<and>
       shader' ! (4 * i + 3) = snd (vary_words (shader ! (4 * i + 2)) (shader ! (4 * i + 3)))) \<and>
    (\<forall>k < length shader. nat sz \<le> k div 4 \<longrightarrow> shader' ! k = shader ! k)"
proof -
  from varyings_patch_nth [OF assms]
  obtain shader' where r: "vertex_shader_varyings_patch shader sz = Inr shader'"
    and l: "length shader' = length shader"
    and n: "\<And>k. k < length shader \<Longrightarrow> shader' ! k =
        (if k div 4 < nat sz then vary_result shader k else shader ! k)"
    by blast
  have "shader' ! (4 * i) = shader ! (4 * i) \<and>
       shader' ! (4 * i + 1) = shader ! (4 * i + 1) \<and>
       shader' ! (4 * i + 2) = fst (vary_words (shader ! (4 * i + 2)) (shader ! (4 * i + 3))) \<and>
       shader' ! (4 * i + 3) = snd (vary_words (shader ! (4 * i + 2)) (shader ! (4 * i + 3)))"
    if i: "i < nat sz" for i
  proof -
    from i assms have b: "4 * i < length shader" "4 * i + 1 < length shader"
      "4 * i + 2 < length shader" "4 * i + 3 < length shader" by linarith+
    show ?thesis
      using n [OF b(1)] n [OF b(2)] n [OF b(3)] n [OF b(4)] i
      by (simp only: word_div vary_result_insn if_True)
  qed
  moreover have "shader' ! k = shader ! k" if "k < length shader" "nat sz \<le> k div 4" for k
    using n [OF that(1)] that(2) by simp
  ultimately show ?thesis using r l by blast
qed

lemma bit_vary_result:
  "bit (vary_result shader k) n \<longleftrightarrow>
     (if k mod 4 = 2 then
        (if bit (shader ! (k + 1)) 3 \<and> n = 31 then cross_slot (shader ! k) (shader ! (k + 1)) = 0
         else if bit (shader ! k) 30 \<and> 26 \<le> n \<and> n \<le> 29 then n = 26 \<and> slot26 (shader ! k) = 0
         else bit (shader ! k) n)
      else if k mod 4 = 3 then (if bit (shader ! k) 3 \<and> n < 3 then False else bit (shader ! k) n)
      else bit (shader ! k) n)"
proof -
  consider "k mod 4 = 2" | "k mod 4 = 3" | "k mod 4 \<noteq> 2 \<and> k mod 4 \<noteq> 3" by blast
  then show ?thesis
  proof cases
    case 1 then show ?thesis by (simp add: vary_result_def bit_vary_fst)
  next
    case 2 then show ?thesis by (simp add: vary_result_def bit_vary_snd)
  next
    case 3 then show ?thesis by (simp add: vary_result_def)
  qed
qed

lemma both_passes_nth:
  assumes "4 * nat sz \<le> length shader"
  shows "\<exists>s1 s2. vertex_shader_attributes_patch shader sz = Inr s1 \<and>
      vertex_shader_varyings_patch s1 sz = Inr s2 \<and>
      length s1 = length shader \<and> length s2 = length shader \<and>
      (\<forall>k < length shader.
         s1 ! k = (if k mod 4 = 1 \<and> k div 4 < nat sz then remap26 (shader ! k) else shader ! k) \<and>
         s2 ! k = (if k div 4 < nat sz
                   then (if k mod 4 = 1 then remap26 (shader ! k) else vary_result shader k)
                   else shader ! k))"
proof -
  from attributes_patch_nth [OF assms]
  obtain s1 where r1: "vertex_shader_attributes_patch shader sz = Inr s1"
    and l1: "length s1 = length shader"
    and n1: "\<And>k. k < length shader \<Longrightarrow> s1 ! k =
        (if k mod 4 = 1 \<and> k div 4 < nat sz then remap26 (shader ! k) else shader ! k)"
    by blast
  from assms l1 have "4 * nat sz \<le> length s1" by simp
  from varyings_patch_nth [OF this] l1
  obtain s2 where r2: "vertex_shader_varyings_patch s1 sz = Inr s2"
    and l2: "length s2 = length shader"
    and n2: "\<And>k. k < length shader \<Longrightarrow> s2 ! k =
        (if k div 4 < nat sz then vary_result s1 k else s1 ! k)"
    by auto
  have "s2 ! k = (if k div 4 < nat sz
                   then (if k mod 4 = 1 then remap26 (shader ! k) else vary_result shader k)
                   else shader ! k)" if k: "k < length shader" for k
  proof (cases "k div 4 < nat sz")
    case False
    then show ?thesis using n2 [OF k] n1 [OF k] by simp
  next
    case True
    consider "k mod 4 = 1" | "k mod 4 = 2" | "k mod 4 = 3" | "k mod 4 \<noteq> 1 \<and> k mod 4 \<noteq> 2 \<and> k mod 4 \<noteq> 3"
      by blast
    then have "vary_result s1 k = (if k mod 4 = 1 then remap26 (shader ! k) else vary_result shader k)"
    proof cases
      case 1
      then show ?thesis using n1 [OF k] True by (simp add: vary_result_def)
    next
      case 2
      from next_word_bound [OF 2 True assms] have k1: "k + 1 < length shader" .
      have "(k + 1) mod 4 = 3" using 2 by (simp add: mod_Suc)
      then have "s1 ! (k + 1) = shader ! (k + 1)" using n1 [OF k1] by simp
      moreover have "s1 ! k = shader ! k" using n1 [OF k] 2 by simp
      ultimately show ?thesis using 2 by (simp add: vary_result_def)
    next
      case 3
      have k1: "k - 1 < length shader" using k by simp
      have "k = 4 * (k div 4) + 3" using 3 div_mult_mod_eq [of k 4] by simp
      then have "k - 1 = 4 * (k div 4) + 2" by simp
      then have "(k - 1) mod 4 = 2" by (simp only: word2_mod)
      then have "s1 ! (k - 1) = shader ! (k - 1)" using n1 [OF k1] by simp
      moreover have "s1 ! k = shader ! k" using n1 [OF k] 3 by simp
      ultimately show ?thesis using 3 by (simp add: vary_result_def)
    next
      case 4
      then show ?thesis using n1 [OF k] by (simp add: vary_result_def)
    qed
    then show ?thesis using n2 [OF k] True by simp
  qed
  with r1 r2 l1 l2 n1 show ?thesis by blast
qed

subsection \<open>Two varying passes in a row\<close>

lemma vary_flag26: "bit (fst (vary_words w2 w3)) 30 = bit w2 30"
  by (simp add: bit_vary_fst)

lemma vary_flag_cross: "bit (snd (vary_words w2 w3)) 3 = bit w3 3"
  by (simp add: bit_vary_snd)

lemma vary_twice_slot26:
  assumes f: "bit w2 30"
  shows "slot26 (fst (vary_words (fst (vary_words w2 w3)) (snd (vary_words w2 w3)))) =
           (if slot26 w2 = 0 then 0 else 1)"
proof -
  let ?a = "fst (vary_words w2 w3)" and ?b = "snd (vary_words w2 w3)"
  have "bit ?a 30" using f by (simp only: vary_flag26)
  then have "slot26 (fst (vary_words ?a ?b)) = (if slot26 ?a = 0 then 1 else 0)"
    by (simp only: slot26_vary if_True)
  moreover have "slot26 ?a = (if slot26 w2 = 0 then 1 else 0)"
    using f by (simp only: slot26_vary if_True)
  ultimately show ?thesis by simp
qed

lemma vary_twice_cross:
  assumes f: "bit w3 3"
  shows "cross_slot (fst (vary_words (fst (vary_words w2 w3)) (snd (vary_words w2 w3))))
           (snd (vary_words (fst (vary_words w2 w3)) (snd (vary_words w2 w3)))) =
           (if cross_slot w2 w3 = 0 then 0 else 1)"
proof -
  let ?a = "fst (vary_words w2 w3)" and ?b = "snd (vary_words w2 w3)"
  have "bit ?b 3" using f by (simp only: vary_flag_cross)
  then have "cross_slot (fst (vary_words ?a ?b)) (snd (vary_words ?a ?b)) =
      (if cross_slot ?a ?b = 0 then 1 else 0)"
    by (simp only: cross_slot_vary if_True)
  moreover have "cross_slot ?a ?b = (if cross_slot w2 w3 = 0 then 1 else 0)"
    using f by (simp only: cross_slot_vary if_True)
  ultimately show ?thesis by simp
qed

lemma varyings_twice_words:
  assumes "4 * nat sz \<le> length shader"
  shows "\<exists>v1 v2. vertex_shader_varyings_patch shader sz = Inr v1 \<and>
      vertex_shader_varyings_patch v1 sz = Inr v2 \<and>
      (\<forall>i < nat sz.
         v1 ! (4 * i + 2) = fst (vary_words (shader ! (4 * i + 2)) (shader ! (4 * i + 3))) \<and>
         v1 ! (4 * i + 3) = snd (vary_words (shader ! (4 * i + 2)) (shader ! (4 * i + 3))) \<and>
         v2 ! (4 * i + 2) = fst (vary_words (v1 ! (4 * i + 2)) (v1 ! (4 * i + 3))) \<and>
         v2 ! (4 * i + 3) = snd (vary_words (v1 ! (4 * i + 2)) (v1 ! (4 * i + 3))))"
proof -
  from varyings_patch_insn_words [OF assms]
  obtain v1 where r1: "vertex_shader_varyings_patch shader sz = Inr v1"
    and l1: "length v1 = length shader"
    and n1: "\<And>i. i < nat sz \<Longrightarrow>
       v1 ! (4 * i + 2) = fst (vary_words (shader ! (4 * i + 2)) (shader ! (4 * i + 3))) \<and>
       v1 ! (4 * i + 3) = snd (vary_words (shader ! (4 * i + 2)) (shader ! (4 * i + 3)))"
    by blast
  from assms l1 have "4 * nat sz \<le> length v1" by simp
  from varyings_patch_insn_words [OF this]
  obtain v2 where r2: "vertex_shader_varyings_patch v1 sz = Inr v2"
    and n2: "\<And>i. i < nat sz \<Longrightarrow>
       v2 ! (4 * i + 2) = fst (vary_words (v1 ! (4 * i + 2)) (v1 ! (4 * i + 3))) \<and>
       v2 ! (4 * i + 3) = snd (vary_words (v1 ! (4 * i + 2)) (v1 ! (4 * i + 3)))"
    by blast
  from r1 r2 n1 n2 show ?thesis by blast
qed

subsection \<open>The attribute pass\<close>

text \<open>
  C1. A segment of at least \<open>4 * size\<close> words is patched without a fault and keeps its
  length.  For every instruction below \<open>size\<close>, the pass looks at the second word: with
  bit 30 (the presence flag) clear the word is unchanged; with bit 30 set the 4-bit slot
  index in bits 26 to 29 becomes 1 if it was 0 and 0 otherwise, and every bit outside
  bits 26 to 29 (the flag included) keeps its value.  All other words of the segment are
  unchanged.
\<close>

theorem attributes_patch_remaps_slot:
  assumes "4 * nat sz \<le> length shader"
  shows "\<exists>shader'. vertex_shader_attributes_patch shader sz = Inr shader' \<and>
           length shader' = length shader \<and>
           (\<forall>k < length shader.
              if k mod 4 = 1 \<and> k div 4 < nat sz then
                (\<not> bit (shader ! k) 30 \<longrightarrow> shader' ! k = shader ! k) \<and>
                (bit (shader ! k) 30 \<longrightarrow>
                   slot26 (shader' ! k) = (if slot26 (shader ! k) = 0 then 1 else 0) \<and>
                   (\<forall>n. \<not> (26 \<le> n \<and> n \<le> 29) \<longrightarrow> bit (shader' ! k) n = bit (shader ! k) n))
              else shader' ! k = shader ! k)"
proof -
  from attributes_patch_nth [OF assms]
  obtain shader' where r: "vertex_shader_attributes_patch shader sz = Inr shader'"
    and l: "length shader' = length shader"
    and n: "\<And>k. k < length shader \<Longrightarrow> shader' ! k =
        (if k mod 4 = 1 \<and> k div 4 < nat sz then remap26 (shader ! k) else shader ! k)"
    by blast
  have "if k mod 4 = 1 \<and> k div 4 < nat sz then
                (\<not> bit (shader ! k) 30 \<longrightarrow> shader' ! k = shader ! k) \<and>
                (bit (shader ! k) 30 \<longrightarrow>
                   slot26 (shader' ! k) = (if slot26 (shader ! k) = 0 then 1 else 0) \<and>
                   (\<forall>n. \<not> (26 \<le> n \<and> n \<le> 29) \<longrightarrow> bit (shader' ! k) n = bit (shader ! k) n))
              else shader' ! k = shader ! k" if "k < length shader" for k
    using n [OF that]
    by (simp add: remap26_unflagged slot26_remap26 bit_remap26)
  with r l show ?thesis by blast
qed

theorem attributes_patch_remaps_slot_witness:
  "4 * nat 1 \<le> length [0, 0x40000000, 0, 0 :: u32] \<and>
   (\<exists>shader'. vertex_shader_attributes_patch [0, 0x40000000, 0, 0] 1 = Inr shader' \<and>
      length shader' = 4 \<and> slot26 (shader' ! 1) = 1 \<and> shader' ! 0 = 0)"
proof -
  have h: "4 * nat 1 \<le> length [0, 0x40000000, 0, 0 :: u32]" by simp
  from attributes_patch_remaps_slot [OF h]
  obtain s where s: "vertex_shader_attributes_patch [0, 0x40000000, 0, 0] 1 = Inr s"
    and l: "length s = 4"
    and n: "\<forall>k < 4.
              if k mod 4 = 1 \<and> k div 4 < nat 1 then
                (\<not> bit ([0, 0x40000000, 0, 0 :: u32] ! k) 30 \<longrightarrow> s ! k = [0, 0x40000000, 0, 0] ! k) \<and>
                (bit ([0, 0x40000000, 0, 0 :: u32] ! k) 30 \<longrightarrow>
                   slot26 (s ! k) = (if slot26 ([0, 0x40000000, 0, 0] ! k) = 0 then 1 else 0) \<and>
                   (\<forall>n. \<not> (26 \<le> n \<and> n \<le> 29) \<longrightarrow> bit (s ! k) n = bit ([0, 0x40000000, 0, 0 :: u32] ! k) n))
              else s ! k = [0, 0x40000000, 0, 0] ! k"
    by auto
  from n [rule_format, of 1] have "slot26 (s ! 1) = 1"
    by (simp add: slot26_def)
  moreover from n [rule_format, of 0] have "s ! 0 = 0" by simp
  ultimately show ?thesis using h s l by simp
qed

subsection \<open>The varying pass\<close>

text \<open>
  C2. A segment of at least \<open>4 * size\<close> words is patched without a fault.  For every
  instruction below \<open>size\<close> the pass remaps two fields by the same rule (a flagged slot 0
  becomes 1, a flagged non-zero slot becomes 0, an unflagged slot is kept): the field in
  bits 26 to 30 of the third word, and the field whose lowest bit is bit 31 of the third
  word and whose upper bits are bits 0 to 3 of the fourth word.  Each field is remapped
  according to its own flag only.  In particular a straddling field with presence 1 and
  slot 1 comes out with slot 0.  Bits 0 to 25 and bit 30 of the third word, bits 3 to 31 of
  the fourth word, the first two words of the instruction and all words of instructions
  from \<open>size\<close> on are unchanged.
\<close>

theorem varyings_patch_remaps_both_fields:
  assumes "4 * nat sz \<le> length shader"
  shows "\<exists>shader'. vertex_shader_varyings_patch shader sz = Inr shader' \<and>
    length shader' = length shader \<and>
    (\<forall>i < nat sz.
       slot26 (shader' ! (4 * i + 2)) =
         (if bit (shader ! (4 * i + 2)) 30
          then (if slot26 (shader ! (4 * i + 2)) = 0 then 1 else 0)
          else slot26 (shader ! (4 * i + 2))) \<and>
       cross_slot (shader' ! (4 * i + 2)) (shader' ! (4 * i + 3)) =
         (if bit (shader ! (4 * i + 3)) 3
          then (if cross_slot (shader ! (4 * i + 2)) (shader ! (4 * i + 3)) = 0 then 1 else 0)
          else cross_slot (shader ! (4 * i + 2)) (shader ! (4 * i + 3))) \<and>
       (bit (shader ! (4 * i + 3)) 3 \<and> cross_slot (shader ! (4 * i + 2)) (shader ! (4 * i + 3)) = 1
          \<longrightarrow> cross_slot (shader' ! (4 * i + 2)) (shader' ! (4 * i + 3)) = 0) \<and>
       (\<forall>n. n < 26 \<or> n = 30 \<longrightarrow> bit (shader' ! (4 * i + 2)) n = bit (shader ! (4 * i + 2)) n) \<and>
       (\<forall>n. 3 \<le> n \<longrightarrow> bit (shader' ! (4 * i + 3)) n = bit (shader ! (4 * i + 3)) n) \<and>
       shader' ! (4 * i) = shader ! (4 * i) \<and>
       shader' ! (4 * i + 1) = shader ! (4 * i + 1)) \<and>
    (\<forall>k < length shader. nat sz \<le> k div 4 \<longrightarrow> shader' ! k = shader ! k)"
proof -
  from varyings_patch_insn_words [OF assms]
  obtain shader' where r: "vertex_shader_varyings_patch shader sz = Inr shader'"
    and l: "length shader' = length shader"
    and w: "\<And>i. i < nat sz \<Longrightarrow>
       shader' ! (4 * i) = shader ! (4 * i) \<and>
       shader' ! (4 * i + 1) = shader ! (4 * i + 1) \<and>
       shader' ! (4 * i + 2) = fst (vary_words (shader ! (4 * i + 2)) (shader ! (4 * i + 3))) \<and>
       shader' ! (4 * i + 3) = snd (vary_words (shader ! (4 * i + 2)) (shader ! (4 * i + 3)))"
    and f: "\<forall>k < length shader. nat sz \<le> k div 4 \<longrightarrow> shader' ! k = shader ! k"
    by blast
  have "slot26 (shader' ! (4 * i + 2)) =
         (if bit (shader ! (4 * i + 2)) 30
          then (if slot26 (shader ! (4 * i + 2)) = 0 then 1 else 0)
          else slot26 (shader ! (4 * i + 2))) \<and>
       cross_slot (shader' ! (4 * i + 2)) (shader' ! (4 * i + 3)) =
         (if bit (shader ! (4 * i + 3)) 3
          then (if cross_slot (shader ! (4 * i + 2)) (shader ! (4 * i + 3)) = 0 then 1 else 0)
          else cross_slot (shader ! (4 * i + 2)) (shader ! (4 * i + 3))) \<and>
       (bit (shader ! (4 * i + 3)) 3 \<and> cross_slot (shader ! (4 * i + 2)) (shader ! (4 * i + 3)) = 1
          \<longrightarrow> cross_slot (shader' ! (4 * i + 2)) (shader' ! (4 * i + 3)) = 0) \<and>
       (\<forall>n. n < 26 \<or> n = 30 \<longrightarrow> bit (shader' ! (4 * i + 2)) n = bit (shader ! (4 * i + 2)) n) \<and>
       (\<forall>n. 3 \<le> n \<longrightarrow> bit (shader' ! (4 * i + 3)) n = bit (shader ! (4 * i + 3)) n) \<and>
       shader' ! (4 * i) = shader ! (4 * i) \<and>
       shader' ! (4 * i + 1) = shader ! (4 * i + 1)" if "i < nat sz" for i
    using w [OF that]
    by (elim conjE) (simp only: slot26_vary cross_slot_vary bit_vary_fst bit_vary_snd, auto)
  with r l f show ?thesis by blast
qed

theorem varyings_patch_remaps_both_fields_witness:
  "4 * nat 1 \<le> length [0, 0, 0x80000000, 0x8 :: u32] \<and>
   cross_slot 0x80000000 0x8 = 1 \<and>
   (\<exists>shader'. vertex_shader_varyings_patch [0, 0, 0x80000000, 0x8] 1 = Inr shader' \<and>
      cross_slot (shader' ! 2) (shader' ! 3) = 0 \<and> bit (shader' ! 3) 3 \<and> shader' ! 0 = 0)"
proof -
  let ?sh = "[0, 0, 0x80000000, 0x8 :: u32]"
  have h: "4 * nat 1 \<le> length ?sh" by simp
  have c: "cross_slot 0x80000000 0x8 = 1" by (simp add: cross_slot_def)
  from varyings_patch_remaps_both_fields [OF h]
  obtain s where s: "vertex_shader_varyings_patch ?sh 1 = Inr s"
    and n: "\<forall>i < nat 1.
       slot26 (s ! (4 * i + 2)) =
         (if bit (?sh ! (4 * i + 2)) 30
          then (if slot26 (?sh ! (4 * i + 2)) = 0 then 1 else 0)
          else slot26 (?sh ! (4 * i + 2))) \<and>
       cross_slot (s ! (4 * i + 2)) (s ! (4 * i + 3)) =
         (if bit (?sh ! (4 * i + 3)) 3
          then (if cross_slot (?sh ! (4 * i + 2)) (?sh ! (4 * i + 3)) = 0 then 1 else 0)
          else cross_slot (?sh ! (4 * i + 2)) (?sh ! (4 * i + 3))) \<and>
       (bit (?sh ! (4 * i + 3)) 3 \<and> cross_slot (?sh ! (4 * i + 2)) (?sh ! (4 * i + 3)) = 1
          \<longrightarrow> cross_slot (s ! (4 * i + 2)) (s ! (4 * i + 3)) = 0) \<and>
       (\<forall>n. n < 26 \<or> n = 30 \<longrightarrow> bit (s ! (4 * i + 2)) n = bit (?sh ! (4 * i + 2)) n) \<and>
       (\<forall>n. 3 \<le> n \<longrightarrow> bit (s ! (4 * i + 3)) n = bit (?sh ! (4 * i + 3)) n) \<and>
       s ! (4 * i) = ?sh ! (4 * i) \<and>
       s ! (4 * i + 1) = ?sh ! (4 * i + 1)"
    by blast
  have b3: "bit (8 :: u32) 3" by simp
  have i0: "0 < nat 1" by simp
  note n0 = n [rule_format, OF i0, simplified mult_0_right add_0]
  show ?thesis using h s n0 b3
    by (simp add: c)
qed

subsection \<open>Presence flags\<close>

text \<open>
  C10. Running the attribute pass and then the varying pass over a segment of at least
  \<open>4 * size\<close> words, neither pass changes a presence flag: bit 30 of the second word, bit
  30 of the third word and bit 3 of the fourth word of every instruction have, after each
  pass, the value they had before.  The attribute pass changes nothing but bits 26 to 29 of
  the second word of an instruction whose flag is set; the varying pass changes nothing but
  the index bits of its two fields (bits 26 to 29 of the third word; bit 31 of the third
  word and bits 0 to 2 of the fourth word), each only when the flag of its field is set.
\<close>

theorem patches_preserve_presence_flags:
  assumes "4 * nat sz \<le> length shader"
  shows "\<exists>s1 s2. vertex_shader_attributes_patch shader sz = Inr s1 \<and>
      vertex_shader_varyings_patch s1 sz = Inr s2 \<and>
      length s1 = length shader \<and> length s2 = length shader \<and>
      (\<forall>k < length shader.
         (k mod 4 = 1 \<or> k mod 4 = 2 \<longrightarrow>
            bit (s1 ! k) 30 = bit (shader ! k) 30 \<and> bit (s2 ! k) 30 = bit (shader ! k) 30) \<and>
         (k mod 4 = 3 \<longrightarrow>
            bit (s1 ! k) 3 = bit (shader ! k) 3 \<and> bit (s2 ! k) 3 = bit (shader ! k) 3) \<and>
         (\<forall>n. bit (s1 ! k) n \<noteq> bit (shader ! k) n \<longrightarrow>
            k div 4 < nat sz \<and> k mod 4 = 1 \<and> bit (shader ! k) 30 \<and> 26 \<le> n \<and> n \<le> 29) \<and>
         (\<forall>n. bit (s2 ! k) n \<noteq> bit (s1 ! k) n \<longrightarrow>
            k div 4 < nat sz \<and>
            (k mod 4 = 2 \<and> bit (shader ! k) 30 \<and> 26 \<le> n \<and> n \<le> 29 \<or>
             k mod 4 = 2 \<and> bit (shader ! (k + 1)) 3 \<and> n = 31 \<or>
             k mod 4 = 3 \<and> bit (shader ! k) 3 \<and> n < 3)))"
proof -
  from both_passes_nth [OF assms]
  obtain s1 s2 where r: "vertex_shader_attributes_patch shader sz = Inr s1"
      "vertex_shader_varyings_patch s1 sz = Inr s2"
      "length s1 = length shader" "length s2 = length shader"
    and n: "\<And>k. k < length shader \<Longrightarrow>
         s1 ! k = (if k mod 4 = 1 \<and> k div 4 < nat sz then remap26 (shader ! k) else shader ! k) \<and>
         s2 ! k = (if k div 4 < nat sz
                   then (if k mod 4 = 1 then remap26 (shader ! k) else vary_result shader k)
                   else shader ! k)"
    by blast
  have "(k mod 4 = 1 \<or> k mod 4 = 2 \<longrightarrow>
            bit (s1 ! k) 30 = bit (shader ! k) 30 \<and> bit (s2 ! k) 30 = bit (shader ! k) 30) \<and>
         (k mod 4 = 3 \<longrightarrow>
            bit (s1 ! k) 3 = bit (shader ! k) 3 \<and> bit (s2 ! k) 3 = bit (shader ! k) 3) \<and>
         (\<forall>n. bit (s1 ! k) n \<noteq> bit (shader ! k) n \<longrightarrow>
            k div 4 < nat sz \<and> k mod 4 = 1 \<and> bit (shader ! k) 30 \<and> 26 \<le> n \<and> n \<le> 29) \<and>
         (\<forall>n. bit (s2 ! k) n \<noteq> bit (s1 ! k) n \<longrightarrow>
            k div 4 < nat sz \<and>
            (k mod 4 = 2 \<and> bit (shader ! k) 30 \<and> 26 \<le> n \<and> n \<le> 29 \<or>
             k mod 4 = 2 \<and> bit (shader ! (k + 1)) 3 \<and> n = 31 \<or>
             k mod 4 = 3 \<and> bit (shader ! k) 3 \<and> n < 3))" if "k < length shader" for k
  proof -
    from n [OF that] have s1: "s1 ! k = (if k mod 4 = 1 \<and> k div 4 < nat sz then remap26 (shader ! k) else shader ! k)"
      and s2: "s2 ! k = (if k div 4 < nat sz
                   then (if k mod 4 = 1 then remap26 (shader ! k) else vary_result shader k)
                   else shader ! k)" by simp_all
    show ?thesis
      unfolding s1 s2
      by (simp add: bit_remap26 bit_vary_result)
  qed
  with r show ?thesis by blast
qed

theorem patches_preserve_presence_flags_witness:
  "4 * nat 1 \<le> length [0, 0x40000000, 0xC0000000, 0x8 :: u32] \<and>
   (\<exists>s1 s2. vertex_shader_attributes_patch [0, 0x40000000, 0xC0000000, 0x8] 1 = Inr s1 \<and>
      vertex_shader_varyings_patch s1 1 = Inr s2 \<and>
      bit (s2 ! 1) 30 \<and> bit (s2 ! 2) 30 \<and> bit (s2 ! 3) 3)"
proof -
  let ?sh = "[0, 0x40000000, 0xC0000000, 0x8 :: u32]"
  have h: "4 * nat 1 \<le> length ?sh" by simp
  from patches_preserve_presence_flags [OF h]
  obtain s1 s2 where r: "vertex_shader_attributes_patch ?sh 1 = Inr s1"
      "vertex_shader_varyings_patch s1 1 = Inr s2"
    and n: "\<And>k. k < length ?sh \<Longrightarrow>
         (k mod 4 = 1 \<or> k mod 4 = 2 \<longrightarrow>
            bit (s1 ! k) 30 = bit (?sh ! k) 30 \<and> bit (s2 ! k) 30 = bit (?sh ! k) 30) \<and>
         (k mod 4 = 3 \<longrightarrow>
            bit (s1 ! k) 3 = bit (?sh ! k) 3 \<and> bit (s2 ! k) 3 = bit (?sh ! k) 3)"
    by blast
  have "bit (s2 ! 1) 30" using n [of 1] by simp
  moreover have "bit (s2 ! 2) 30" using n [of 2] by simp
  moreover have "bit (s2 ! 3) 3" using n [of 3] by simp
  ultimately show ?thesis using h r by blast
qed

subsection \<open>Applying the remap twice\<close>

text \<open>
  C7, as stated, fails: the attribute pass takes the flagged word \<open>0x44000000\<close> (slot 1) to
  \<open>0x40000000\<close> (slot 0), and a second pass takes that back to \<open>0x44000000\<close>, slot 1
  and not slot 0.
\<close>

theorem remap_twice_slot1_counterexample:
  "vertex_shader_attributes_patch [0, 0x44000000, 0, 0] 1 = Inr [0, 0x40000000, 0, 0] \<and>
   vertex_shader_attributes_patch [0, 0x40000000, 0, 0] 1 = Inr [0, 0x44000000, 0, 0] \<and>
   bit (0x44000000 :: u32) 30 \<and> slot26 0x44000000 = 1 \<and> slot26 0x44000000 \<noteq> 0"
  by (simp add: vertex_shader_attributes_patch_def attributes_patch_loop.simps
        attributes_patch_insn_def slot26_def)

text \<open>
  C7, amended.  The remap meant is the one of both passes: the slot field of word 1 in the
  attribute pass, and in the varying pass the slot field of word 2 and the slot field that
  straddles words 2 and 3.  For every instruction below \<open>size\<close> and each of these three
  fields whose presence flag is set, one pass maps the slot value 0 to 1 and every non-zero
  value to 0; two passes of the same kind therefore map 0 to 0 and every non-zero value
  to 1.  In particular a slot-1 field holds 0 after one pass and 1 again after two.
\<close>

theorem remap_one_step_and_twice:
  assumes "4 * nat sz \<le> length shader"
  shows "(\<exists>s1 s2. vertex_shader_attributes_patch shader sz = Inr s1 \<and>
      vertex_shader_attributes_patch s1 sz = Inr s2 \<and>
      (\<forall>i < nat sz. bit (shader ! (4 * i + 1)) 30 \<longrightarrow>
         slot26 (s1 ! (4 * i + 1)) = (if slot26 (shader ! (4 * i + 1)) = 0 then 1 else 0) \<and>
         slot26 (s2 ! (4 * i + 1)) = (if slot26 (shader ! (4 * i + 1)) = 0 then 0 else 1) \<and>
         (slot26 (shader ! (4 * i + 1)) = 1 \<longrightarrow>
            slot26 (s1 ! (4 * i + 1)) = 0 \<and> slot26 (s2 ! (4 * i + 1)) = 1))) \<and>
    (\<exists>v1 v2. vertex_shader_varyings_patch shader sz = Inr v1 \<and>
      vertex_shader_varyings_patch v1 sz = Inr v2 \<and>
      (\<forall>i < nat sz.
         (bit (shader ! (4 * i + 2)) 30 \<longrightarrow>
            slot26 (v1 ! (4 * i + 2)) = (if slot26 (shader ! (4 * i + 2)) = 0 then 1 else 0) \<and>
            slot26 (v2 ! (4 * i + 2)) = (if slot26 (shader ! (4 * i + 2)) = 0 then 0 else 1) \<and>
            (slot26 (shader ! (4 * i + 2)) = 1 \<longrightarrow>
               slot26 (v1 ! (4 * i + 2)) = 0 \<and> slot26 (v2 ! (4 * i + 2)) = 1)) \<and>
         (bit (shader ! (4 * i + 3)) 3 \<longrightarrow>
            cross_slot (v1 ! (4 * i + 2)) (v1 ! (4 * i + 3)) =
              (if cross_slot (shader ! (4 * i + 2)) (shader ! (4 * i + 3)) = 0 then 1 else 0) \<and>
            cross_slot (v2 ! (4 * i + 2)) (v2 ! (4 * i + 3)) =
              (if cross_slot (shader ! (4 * i + 2)) (shader ! (4 * i + 3)) = 0 then 0 else 1) \<and>
            (cross_slot (shader ! (4 * i + 2)) (shader ! (4 * i + 3)) = 1 \<longrightarrow>
               cross_slot (v1 ! (4 * i + 2)) (v1 ! (4 * i + 3)) = 0 \<and>
               cross_slot (v2 ! (4 * i + 2)) (v2 ! (4 * i + 3)) = 1))))"
proof (rule conjI)
  from attributes_patch_nth [OF assms]
  obtain s1 where r1: "vertex_shader_attributes_patch shader sz = Inr s1"
    and l1: "length s1 = length shader"
    and n1: "\<And>k. k < length shader \<Longrightarrow> s1 ! k =
        (if k mod 4 = 1 \<and> k div 4 < nat sz then remap26 (shader ! k) else shader ! k)"
    by blast
  from assms l1 have "4 * nat sz \<le> length s1" by simp
  from attributes_patch_nth [OF this] l1
  obtain s2 where r2: "vertex_shader_attributes_patch s1 sz = Inr s2"
    and n2: "\<And>k. k < length shader \<Longrightarrow> s2 ! k =
        (if k mod 4 = 1 \<and> k div 4 < nat sz then remap26 (s1 ! k) else s1 ! k)"
    by auto
  have "slot26 (s1 ! (4 * i + 1)) = (if slot26 (shader ! (4 * i + 1)) = 0 then 1 else 0) \<and>
         slot26 (s2 ! (4 * i + 1)) = (if slot26 (shader ! (4 * i + 1)) = 0 then 0 else 1) \<and>
         (slot26 (shader ! (4 * i + 1)) = 1 \<longrightarrow>
            slot26 (s1 ! (4 * i + 1)) = 0 \<and> slot26 (s2 ! (4 * i + 1)) = 1)"
    if i: "i < nat sz" and f: "bit (shader ! (4 * i + 1)) 30" for i
  proof -
    from i assms have b: "4 * i + 1 < length shader" by linarith
    have e1: "s1 ! (4 * i + 1) = remap26 (shader ! (4 * i + 1))"
      using n1 [OF b] i by (simp only: word1_mod word_div) simp
    have e2: "s2 ! (4 * i + 1) = remap26 (remap26 (shader ! (4 * i + 1)))"
      using n2 [OF b] i by (simp only: word1_mod word_div e1) simp
    show ?thesis
      by (simp only: e1 e2 slot26_remap26 [OF f] remap26_twice [OF f]) simp
  qed
  with r1 r2 show "\<exists>s1 s2. vertex_shader_attributes_patch shader sz = Inr s1 \<and>
      vertex_shader_attributes_patch s1 sz = Inr s2 \<and>
      (\<forall>i < nat sz. bit (shader ! (4 * i + 1)) 30 \<longrightarrow>
         slot26 (s1 ! (4 * i + 1)) = (if slot26 (shader ! (4 * i + 1)) = 0 then 1 else 0) \<and>
         slot26 (s2 ! (4 * i + 1)) = (if slot26 (shader ! (4 * i + 1)) = 0 then 0 else 1) \<and>
         (slot26 (shader ! (4 * i + 1)) = 1 \<longrightarrow>
            slot26 (s1 ! (4 * i + 1)) = 0 \<and> slot26 (s2 ! (4 * i + 1)) = 1))" by blast
next
  from varyings_twice_words [OF assms]
  obtain v1 v2 where r: "vertex_shader_varyings_patch shader sz = Inr v1"
      "vertex_shader_varyings_patch v1 sz = Inr v2"
    and n: "\<And>i. i < nat sz \<Longrightarrow>
         v1 ! (4 * i + 2) = fst (vary_words (shader ! (4 * i + 2)) (shader ! (4 * i + 3))) \<and>
         v1 ! (4 * i + 3) = snd (vary_words (shader ! (4 * i + 2)) (shader ! (4 * i + 3))) \<and>
         v2 ! (4 * i + 2) = fst (vary_words (v1 ! (4 * i + 2)) (v1 ! (4 * i + 3))) \<and>
         v2 ! (4 * i + 3) = snd (vary_words (v1 ! (4 * i + 2)) (v1 ! (4 * i + 3)))"
    by blast
  have "(bit (shader ! (4 * i + 2)) 30 \<longrightarrow>
            slot26 (v1 ! (4 * i + 2)) = (if slot26 (shader ! (4 * i + 2)) = 0 then 1 else 0) \<and>
            slot26 (v2 ! (4 * i + 2)) = (if slot26 (shader ! (4 * i + 2)) = 0 then 0 else 1) \<and>
            (slot26 (shader ! (4 * i + 2)) = 1 \<longrightarrow>
               slot26 (v1 ! (4 * i + 2)) = 0 \<and> slot26 (v2 ! (4 * i + 2)) = 1)) \<and>
         (bit (shader ! (4 * i + 3)) 3 \<longrightarrow>
            cross_slot (v1 ! (4 * i + 2)) (v1 ! (4 * i + 3)) =
              (if cross_slot (shader ! (4 * i + 2)) (shader ! (4 * i + 3)) = 0 then 1 else 0) \<and>
            cross_slot (v2 ! (4 * i + 2)) (v2 ! (4 * i + 3)) =
              (if cross_slot (shader ! (4 * i + 2)) (shader ! (4 * i + 3)) = 0 then 0 else 1) \<and>
            (cross_slot (shader ! (4 * i + 2)) (shader ! (4 * i + 3)) = 1 \<longrightarrow>
               cross_slot (v1 ! (4 * i + 2)) (v1 ! (4 * i + 3)) = 0 \<and>
               cross_slot (v2 ! (4 * i + 2)) (v2 ! (4 * i + 3)) = 1))" if i: "i < nat sz" for i
  proof -
    let ?w2 = "shader ! (4 * i + 2)" and ?w3 = "shader ! (4 * i + 3)"
    from n [OF i] have e: "v1 ! (4 * i + 2) = fst (vary_words ?w2 ?w3)"
      "v1 ! (4 * i + 3) = snd (vary_words ?w2 ?w3)"
      "v2 ! (4 * i + 2) = fst (vary_words (fst (vary_words ?w2 ?w3)) (snd (vary_words ?w2 ?w3)))"
      "v2 ! (4 * i + 3) = snd (vary_words (fst (vary_words ?w2 ?w3)) (snd (vary_words ?w2 ?w3)))"
      by simp_all
    have a: "slot26 (v1 ! (4 * i + 2)) = (if slot26 ?w2 = 0 then 1 else 0) \<and>
            slot26 (v2 ! (4 * i + 2)) = (if slot26 ?w2 = 0 then 0 else 1)" if f: "bit ?w2 30"
    proof -
      have "slot26 (fst (vary_words ?w2 ?w3)) = (if slot26 ?w2 = 0 then 1 else 0)"
        using f by (simp only: slot26_vary if_True)
      with vary_twice_slot26 [OF f, of ?w3] show ?thesis by (simp only: e simp_thms)
    qed
    have b: "cross_slot (v1 ! (4 * i + 2)) (v1 ! (4 * i + 3)) =
              (if cross_slot ?w2 ?w3 = 0 then 1 else 0) \<and>
            cross_slot (v2 ! (4 * i + 2)) (v2 ! (4 * i + 3)) =
              (if cross_slot ?w2 ?w3 = 0 then 0 else 1)" if f: "bit ?w3 3"
    proof -
      have "cross_slot (fst (vary_words ?w2 ?w3)) (snd (vary_words ?w2 ?w3)) =
              (if cross_slot ?w2 ?w3 = 0 then 1 else 0)"
        using f by (simp only: cross_slot_vary if_True)
      with vary_twice_cross [OF f, of ?w2] show ?thesis by (simp only: e simp_thms)
    qed
    from a b show ?thesis by auto
  qed
  with r show "\<exists>v1 v2. vertex_shader_varyings_patch shader sz = Inr v1 \<and>
      vertex_shader_varyings_patch v1 sz = Inr v2 \<and>
      (\<forall>i < nat sz.
         (bit (shader ! (4 * i + 2)) 30 \<longrightarrow>
            slot26 (v1 ! (4 * i + 2)) = (if slot26 (shader ! (4 * i + 2)) = 0 then 1 else 0) \<and>
            slot26 (v2 ! (4 * i + 2)) = (if slot26 (shader ! (4 * i + 2)) = 0 then 0 else 1) \<and>
            (slot26 (shader ! (4 * i + 2)) = 1 \<longrightarrow>
               slot26 (v1 ! (4 * i + 2)) = 0 \<and> slot26 (v2 ! (4 * i + 2)) = 1)) \<and>
         (bit (shader ! (4 * i + 3)) 3 \<longrightarrow>
            cross_slot (v1 ! (4 * i + 2)) (v1 ! (4 * i + 3)) =
              (if cross_slot (shader ! (4 * i + 2)) (shader ! (4 * i + 3)) = 0 then 1 else 0) \<and>
            cross_slot (v2 ! (4 * i + 2)) (v2 ! (4 * i + 3)) =
              (if cross_slot (shader ! (4 * i + 2)) (shader ! (4 * i + 3)) = 0 then 0 else 1) \<and>
            (cross_slot (shader ! (4 * i + 2)) (shader ! (4 * i + 3)) = 1 \<longrightarrow>
               cross_slot (v1 ! (4 * i + 2)) (v1 ! (4 * i + 3)) = 0 \<and>
               cross_slot (v2 ! (4 * i + 2)) (v2 ! (4 * i + 3)) = 1)))" by blast
qed

theorem remap_one_step_and_twice_witness:
  "4 * nat 1 \<le> length [0, 0x44000000, 0xC4000000, 0x8 :: u32] \<and>
   bit (0x44000000 :: u32) 30 \<and> slot26 0x44000000 = 1 \<and>
   bit (0xC4000000 :: u32) 30 \<and> slot26 0xC4000000 = 1 \<and>
   bit (0x8 :: u32) 3 \<and> cross_slot 0xC4000000 0x8 = 1 \<and>
   (\<exists>s1 s2. vertex_shader_attributes_patch [0, 0x44000000, 0xC4000000, 0x8] 1 = Inr s1 \<and>
      vertex_shader_attributes_patch s1 1 = Inr s2 \<and>
      slot26 (s1 ! 1) = 0 \<and> slot26 (s2 ! 1) = 1) \<and>
   (\<exists>v1 v2. vertex_shader_varyings_patch [0, 0x44000000, 0xC4000000, 0x8] 1 = Inr v1 \<and>
      vertex_shader_varyings_patch v1 1 = Inr v2 \<and>
      slot26 (v1 ! 2) = 0 \<and> slot26 (v2 ! 2) = 1 \<and>
      cross_slot (v1 ! 2) (v1 ! 3) = 0 \<and> cross_slot (v2 ! 2) (v2 ! 3) = 1)"
proof -
  let ?sh = "[0, 0x44000000, 0xC4000000, 0x8 :: u32]"
  have h: "4 * nat 1 \<le> length ?sh" by simp
  have f1: "bit (0x44000000 :: u32) 30" by simp
  have c1: "slot26 0x44000000 = 1" by (simp add: slot26_def)
  have f2: "bit (0xC4000000 :: u32) 30" by simp
  have c2: "slot26 0xC4000000 = 1" by (simp add: slot26_def)
  have f3: "bit (0x8 :: u32) 3" by simp
  have c3: "cross_slot 0xC4000000 0x8 = 1" by (simp add: cross_slot_def)
  note t = remap_one_step_and_twice [OF h]
  from t obtain s1 s2 where r: "vertex_shader_attributes_patch ?sh 1 = Inr s1"
      "vertex_shader_attributes_patch s1 1 = Inr s2"
    and n: "\<forall>i < nat 1. bit (?sh ! (4 * i + 1)) 30 \<longrightarrow>
         slot26 (s1 ! (4 * i + 1)) = (if slot26 (?sh ! (4 * i + 1)) = 0 then 1 else 0) \<and>
         slot26 (s2 ! (4 * i + 1)) = (if slot26 (?sh ! (4 * i + 1)) = 0 then 0 else 1) \<and>
         (slot26 (?sh ! (4 * i + 1)) = 1 \<longrightarrow>
            slot26 (s1 ! (4 * i + 1)) = 0 \<and> slot26 (s2 ! (4 * i + 1)) = 1)"
    by blast
  from t obtain v1 v2 where q: "vertex_shader_varyings_patch ?sh 1 = Inr v1"
      "vertex_shader_varyings_patch v1 1 = Inr v2"
    and m: "\<forall>i < nat 1.
         (bit (?sh ! (4 * i + 2)) 30 \<longrightarrow>
            slot26 (v1 ! (4 * i + 2)) = (if slot26 (?sh ! (4 * i + 2)) = 0 then 1 else 0) \<and>
            slot26 (v2 ! (4 * i + 2)) = (if slot26 (?sh ! (4 * i + 2)) = 0 then 0 else 1) \<and>
            (slot26 (?sh ! (4 * i + 2)) = 1 \<longrightarrow>
               slot26 (v1 ! (4 * i + 2)) = 0 \<and> slot26 (v2 ! (4 * i + 2)) = 1)) \<and>
         (bit (?sh ! (4 * i + 3)) 3 \<longrightarrow>
            cross_slot (v1 ! (4 * i + 2)) (v1 ! (4 * i + 3)) =
              (if cross_slot (?sh ! (4 * i + 2)) (?sh ! (4 * i + 3)) = 0 then 1 else 0) \<and>
            cross_slot (v2 ! (4 * i + 2)) (v2 ! (4 * i + 3)) =
              (if cross_slot (?sh ! (4 * i + 2)) (?sh ! (4 * i + 3)) = 0 then 0 else 1) \<and>
            (cross_slot (?sh ! (4 * i + 2)) (?sh ! (4 * i + 3)) = 1 \<longrightarrow>
               cross_slot (v1 ! (4 * i + 2)) (v1 ! (4 * i + 3)) = 0 \<and>
               cross_slot (v2 ! (4 * i + 2)) (v2 ! (4 * i + 3)) = 1))"
    by blast
  have i0: "0 < nat 1" by simp
  note n0 = n [rule_format, OF i0, simplified mult_0_right add_0]
  note m0 = m [rule_format, OF i0, simplified mult_0_right add_0]
  have a: "slot26 (s1 ! 1) = 0 \<and> slot26 (s2 ! 1) = 1" using n0 f1 c1 by simp
  have b: "slot26 (v1 ! 2) = 0 \<and> slot26 (v2 ! 2) = 1 \<and>
      cross_slot (v1 ! 2) (v1 ! 3) = 0 \<and> cross_slot (v2 ! 2) (v2 ! 3) = 1"
    using m0 f2 c2 f3 c3 by simp
  from a r have "\<exists>s1 s2. vertex_shader_attributes_patch ?sh 1 = Inr s1 \<and>
      vertex_shader_attributes_patch s1 1 = Inr s2 \<and>
      slot26 (s1 ! 1) = 0 \<and> slot26 (s2 ! 1) = 1" by blast
  moreover from b q have "\<exists>v1 v2. vertex_shader_varyings_patch ?sh 1 = Inr v1 \<and>
      vertex_shader_varyings_patch v1 1 = Inr v2 \<and>
      slot26 (v1 ! 2) = 0 \<and> slot26 (v2 ! 2) = 1 \<and>
      cross_slot (v1 ! 2) (v1 ! 3) = 0 \<and> cross_slot (v2 ! 2) (v2 ! 3) = 1" by blast
  ultimately show ?thesis using h f1 c1 f2 c2 f3 c3 by blast
qed

section \<open>Properties of the symbol builder\<close>

subsection \<open>Uniform symbols\<close>








subsection \<open>Attribute symbols\<close>





subsection \<open>The example streams, evaluated\<close>

lemmas parser_defs =
  calloc_def free_def printf_def load_u32_def load_u16_def
  STREAM_TAG_STRI_def STREAM_TAG_SUNI_def STREAM_TAG_VUNI_def STREAM_TAG_VINI_def
  STREAM_TAG_SATT_def STREAM_TAG_VATT_def
  stream_uniform_table_create_def stream_uniform_table_start_read_def uniform_loop.simps
  uniform_entry_def stream_uniform_start_read_def stream_string_read_def
  stream_uniform_data_read_def stream_uniform_init_read_def stream_uniform_table_destroy_def
  stream_attribute_table_create_def stream_attribute_table_start_read_def attribute_loop.simps
  attribute_entry_def stream_attribute_start_read_def
  stream_attribute_data_read_def stream_attribute_table_destroy_def

lemmas symbol_defs =
  calloc_def free_def printf_def load_u32_def load_u16_def
  stream_uniform_table_to_symbols_def uniform_symbol_def symbol_create_def calloc_array_def
  stream_attribute_table_to_symbols_def attribute_symbol_def symbol_destroy_def

lemma replicate_small: "replicate 1 x = [x]" "replicate 2 x = [x, x]"
  by (simp_all add: numeral_2_eq_2)





subsection \<open>Symbols and their entries\<close>



section \<open>Properties of the table parsers\<close>

subsection \<open>The uniform table is the reverse of the read order\<close>

lemma uniform_entry_any_table:
  "uniform_entry stream (Some t1) offset w = uniform_entry stream (Some t2) offset w"
  by (simp add: uniform_entry_def)

lemma uniform_entry_no_Done:
  "uniform_entry stream table offset w \<noteq> Inr (Jump Done w')"
  by (simp add: uniform_entry_def stream_uniform_data_read_def Let_def
        split: prod.splits sum.splits option.splits)

lemma uniform_loop_Done:
  assumes "uniform_loop stream count (Some t) offset i w = Inr (Done, tp, w')"
  shows "\<exists>t'. tp = Some t' \<and> t_block t' = t_block t \<and> t_start t' = t_start t \<and>
           t_uniforms t' = rev (uniforms_read stream count (Some t0) offset i w) @ t_uniforms t \<and>
           length (uniforms_read stream count (Some t0) offset i w) = nat (count - i)"
  using assms
proof (induction stream count "Some t" offset i w arbitrary: t rule: uniform_loop.induct)
  case (1 stream count offset i w)
  show ?case
  proof (cases "i < count")
    case False
    then have n: "uniforms_read stream count (Some t0) offset i w = []"
      by (subst uniforms_read.simps) simp
    from False "1.prems" have "tp = Some t"
      by (simp add: uniform_loop.simps [of stream count "Some t" offset i w])
    with n False show ?thesis by simp
  next
    case True
    from "1.prems" True obtain u offset1 w1 where
      e: "uniform_entry stream (Some t) offset w = Inr (Entry u offset1 w1)"
      and r: "uniform_loop stream count (Some (t\<lparr>t_uniforms := u # t_uniforms t\<rparr>)) offset1 (i + 1) w1
                = Inr (Done, tp, w')"
      by (auto simp add: uniform_loop.simps [of stream count "Some t" offset i w]
            uniform_entry_no_Done split: sum.splits entry_step.splits)
    from e have e0: "uniform_entry stream (Some t0) offset w = Inr (Entry u offset1 w1)"
      using uniform_entry_any_table [of stream t0 offset w t] by simp
    from "1.hyps" [OF True e _ _ r]
    obtain t' where t': "tp = Some t'" "t_block t' = t_block t" "t_start t' = t_start t"
      "t_uniforms t' = rev (uniforms_read stream count (Some t0) offset1 (i + 1) w1) @ u # t_uniforms t"
      "length (uniforms_read stream count (Some t0) offset1 (i + 1) w1) = nat (count - (i + 1))"
      by auto
    have u: "uniforms_read stream count (Some t0) offset i w =
               u # uniforms_read stream count (Some t0) offset1 (i + 1) w1"
      using True e0 by (simp add: uniforms_read.simps [of stream count "Some t0" offset i w])
    show ?thesis using t' True by (simp add: u)
  qed
qed



subsection \<open>The attribute table is the reverse of the read order\<close>

lemma attribute_entry_any_table:
  "attribute_entry stream (Some t1) offset w = attribute_entry stream (Some t2) offset w"
  by (simp add: attribute_entry_def)

lemma attribute_entry_no_Done:
  "attribute_entry stream table offset w \<noteq> Inr (Jump Done w')"
  by (simp add: attribute_entry_def stream_attribute_data_read_def Let_def
        split: prod.splits sum.splits option.splits)

lemma attribute_loop_Done:
  assumes "attribute_loop stream count (Some t) offset i w = Inr (Done, tp, w')"
  shows "\<exists>t'. tp = Some t' \<and> at_block t' = at_block t \<and> at_start t' = at_start t \<and>
           t_attributes t' = rev (attributes_read stream count (Some t0) offset i w) @ t_attributes t \<and>
           length (attributes_read stream count (Some t0) offset i w) = nat (count - i)"
  using assms
proof (induction stream count "Some t" offset i w arbitrary: t rule: attribute_loop.induct)
  case (1 stream count offset i w)
  show ?case
  proof (cases "i < count")
    case False
    then have n: "attributes_read stream count (Some t0) offset i w = []"
      by (subst attributes_read.simps) simp
    from False "1.prems" have "tp = Some t"
      by (simp add: attribute_loop.simps [of stream count "Some t" offset i w])
    with n False show ?thesis by simp
  next
    case True
    from "1.prems" True obtain u offset1 w1 where
      e: "attribute_entry stream (Some t) offset w = Inr (Entry u offset1 w1)"
      and r: "attribute_loop stream count (Some (t\<lparr>t_attributes := u # t_attributes t\<rparr>)) offset1 (i + 1) w1
                = Inr (Done, tp, w')"
      by (auto simp add: attribute_loop.simps [of stream count "Some t" offset i w]
            attribute_entry_no_Done split: sum.splits entry_step.splits)
    from e have e0: "attribute_entry stream (Some t0) offset w = Inr (Entry u offset1 w1)"
      using attribute_entry_any_table [of stream t0 offset w t] by simp
    from "1.hyps" [OF True e _ _ r]
    obtain t' where t': "tp = Some t'" "at_block t' = at_block t" "at_start t' = at_start t"
      "t_attributes t' = rev (attributes_read stream count (Some t0) offset1 (i + 1) w1) @ u # t_attributes t"
      "length (attributes_read stream count (Some t0) offset1 (i + 1) w1) = nat (count - (i + 1))"
      by auto
    have u: "attributes_read stream count (Some t0) offset i w =
               u # attributes_read stream count (Some t0) offset1 (i + 1) w1"
      using True e0 by (simp add: attributes_read.simps [of stream count "Some t0" offset i w])
    show ?thesis using t' True by (simp add: u)
  qed
qed









subsection \<open>Symbol order\<close>




subsection \<open>A missing chunk\<close>

text \<open>
  C4.  The claim says that a missing required chunk makes the parser fail and release all
  partially built state.  In \<open>world0\<close> nothing is allocated.  On a stream whose only entry
  lacks its entry-start chunk, and on one whose entry lacks its name chunk, the parser
  reports the error and returns null, but block 2, the record allocated for the entry that
  was being read, is still allocated afterwards: the source jumps to \<open>corrupt\<close> before the
  record is linked into the table, and \<open>stream_uniform_table_destroy\<close> frees linked records
  only.
\<close>

theorem corrupt_entry_leaks_record:
  "live world0 = [] \<and>
   stream_uniform_table_create (Some uniform_stream_missing_entry) 20 world0 =
     Inr (None,
          \<lparr>live = [2], next_block = 3, alloc_script = [],
             messages = [(''stream_uniform_table_create: Error: missing uniform start at'', [16])]\<rparr>) \<and>
   stream_uniform_table_create (Some uniform_stream_missing_name) 28 world0 =
     Inr (None,
          \<lparr>live = [2], next_block = 3, alloc_script = [],
             messages = [(''stream_uniform_table_create: Error: missing string at'', [24])]\<rparr>)"
  by (simp add: parser_defs uniform_stream_missing_entry_def uniform_stream_missing_name_def
        world0_def)


subsection \<open>A failed allocation of an entry record\<close>

text \<open>
  C8.  The claim says that a failed allocation of the per-entry record is detected and
  signalled as a failure.  With the table allocated and the allocation of the first entry
  record failing, both parsers dereference the null record: the test after \<open>calloc\<close> looks
  at \<open>table\<close>, which is not null, so the jump to \<open>oom\<close> is never taken.
\<close>

theorem entry_allocation_failure_not_detected:
  "stream_uniform_table_create (Some uniform_stream_one_entry) 60 world_second_alloc_fails =
     Inl NullDeref \<and>
   stream_attribute_table_create (Some example_attribute_stream) 100 world_second_alloc_fails =
     Inl NullDeref"
  by (simp add: parser_defs uniform_stream_one_entry_def example_attribute_stream_def
        world_second_alloc_fails_def)


subsection \<open>Init chunks of attributes\<close>

text \<open>
  C6.  The claim says that the attribute parser, like the uniform parser, tries to read an
  optional init chunk after the data record and carries it into the symbol.  On an
  attribute stream whose entry is followed by an init chunk (the tag at byte 48 is
  \<open>VINI\<close>), the parsed entry has a null \<open>init\<close> pointer and the symbol built from it has
  no initializer and the flag 0: \<open>stream_attribute_table_create\<close> calls no init reader,
  although \<open>struct stream_attribute\<close> has the \<open>init\<close> member and
  \<open>stream_attribute_table_to_symbols\<close> tests it.
\<close>

theorem attribute_init_chunk_not_read:
  "load_u32 attribute_stream_with_init 48 = Inr STREAM_TAG_VINI \<and>
   stream_attribute_table_create (Some attribute_stream_with_init) 76 world0 =
     Inr (Some \<lparr>at_block = 1, at_start = Some 0,
                 t_attributes =
                   [\<lparr>a_block = 2, a_start = Some 12, a_string = Some 20, a_data = Some 32,
                       a_init = None\<rparr>]\<rparr>,
          \<lparr>live = [2, 1], next_block = 3, alloc_script = [], messages = []\<rparr>) \<and>
   stream_attribute_table_to_symbols attribute_stream_with_init
     (Some \<lparr>at_block = 1, at_start = Some 0,
                 t_attributes =
                   [\<lparr>a_block = 2, a_start = Some 12, a_string = Some 20, a_data = Some 32,
                       a_init = None\<rparr>]\<rparr>)
     (Some 0) \<lparr>live = [2, 1], next_block = 3, alloc_script = [], messages = []\<rparr> =
     Inr (Some \<lparr>arr_block = 3,
                 arr_elems =
                   [Some \<lparr>sym_block = 4, sym_name = 28, sym_type = SYMBOL_ATTRIBUTE,
                           sym_size = 16, sym_element_count = 4, sym_entry_count = 0,
                           sym_data = None, sym_has_data = 0, sym_offset = 0\<rparr>]\<rparr>,
          Some 1,
          \<lparr>live = [4, 3, 2, 1], next_block = 5, alloc_script = [], messages = []\<rparr>)"
  by (simp add: parser_defs symbol_defs attribute_stream_with_init_def world0_def replicate_small)


section \<open>Properties of the attach functions\<close>

subsection \<open>A parser that returns null has printed a message\<close>

lemma calloc_messages: "calloc w = (p, w1) \<Longrightarrow> messages w1 = messages w"
  by (auto simp add: calloc_def Let_def split: list.splits if_splits)

lemma free_messages: "messages (free p w) = messages w"
  by (simp add: free_def split: option.splits)

lemma printf_messages: "length (messages (printf text args w)) = length (messages w) + 1"
  by (simp add: printf_def)

lemma free_uniforms_messages: "messages (free_uniforms us w) = messages w"
  by (induction us arbitrary: w) (simp_all add: free_messages)

lemma uniform_destroy_messages: "messages (stream_uniform_table_destroy tp w) = messages w"
  by (simp add: stream_uniform_table_destroy_def free_messages free_uniforms_messages
        split: option.splits)

lemma uniform_entry_messages:
  assumes "uniform_entry stream table offset w = Inr step"
  shows "case step of
           Entry u offset1 w1 \<Rightarrow> messages w1 = messages w
         | Jump x w1 \<Rightarrow> length (messages w1) = length (messages w) + 1"
proof -
  obtain p w0 where c: "calloc w = (p, w0)" by (cases "calloc w")
  from calloc_messages [OF c] have m: "messages w0 = messages w" .
  from assms c m show ?thesis
    by (auto simp add: uniform_entry_def stream_uniform_data_read_def Let_def printf_messages
          split: prod.splits sum.splits option.splits if_splits)
qed

lemma uniform_loop_messages:
  assumes "uniform_loop stream count table offset i w = Inr (x, tp, w')"
  shows "if x = Done then messages w' = messages w
         else length (messages w') = length (messages w) + 1"
  using assms
proof (induction stream count table offset i w rule: uniform_loop.induct)
  case (1 stream count table offset i w)
  show ?case
  proof (cases "i < count")
    case False
    with "1.prems" show ?thesis
      by (simp add: uniform_loop.simps [of stream count table offset i w])
  next
    case True
    from "1.prems" True obtain step where
      e: "uniform_entry stream table offset w = Inr step"
      by (auto simp add: uniform_loop.simps [of stream count table offset i w] split: sum.splits)
    show ?thesis
    proof (cases step)
      case (Jump y w1)
      with "1.prems" True e have "x = y" "w' = w1"
        by (simp_all add: uniform_loop.simps [of stream count table offset i w])
      moreover from e Jump have "y \<noteq> Done" using uniform_entry_no_Done by blast
      ultimately show ?thesis using uniform_entry_messages [OF e] Jump by simp
    next
      case (Entry u offset1 w1)
      with "1.prems" True e obtain t where t: "table = Some t"
        and r: "uniform_loop stream count (Some (t\<lparr>t_uniforms := u # t_uniforms t\<rparr>)) offset1 (i + 1) w1
                  = Inr (x, tp, w')"
        by (auto simp add: uniform_loop.simps [of stream count table offset i w]
              split: option.splits)
      from "1.IH" [OF True e Entry t r] uniform_entry_messages [OF e] Entry
      show ?thesis by simp
    qed
  qed
qed

lemma uniform_create_None_reported:
  assumes "stream_uniform_table_create (Some stream) sz w = Inr (None, w')" and "sz \<noteq> 0"
  shows "length (messages w') = length (messages w) + 1"
proof -
  obtain p w0 where c: "calloc w = (p, w0)" by (cases "calloc w")
  from calloc_messages [OF c] have m: "messages w0 = messages w" .
  show ?thesis
  proof (cases p)
    case None
    with assms c m show ?thesis
      by (auto simp add: stream_uniform_table_create_def printf_messages)
  next
    case (Some b)
    let ?t0 = "\<lparr>t_block = b, t_start = None, t_uniforms = []\<rparr>"
    from assms c Some obtain n table where
      s: "stream_uniform_table_start_read stream 0 ?t0 = Inr (n, table)"
      by (auto simp add: stream_uniform_table_create_def split: sum.splits)
    show ?thesis
    proof (cases "t_start table")
      case None
      with assms c \<open>p = Some b\<close> s m show ?thesis
        by (auto simp add: stream_uniform_table_create_def uniform_destroy_messages printf_messages)
    next
      case (Some start)
      with assms c \<open>p = Some b\<close> s obtain count :: u32 and x tp w2 where
        l: "uniform_loop stream (sint count) (Some table) (0 + n) 0 w0 = Inr (x, tp, w2)"
        and res: "(x = Done \<and> tp = None \<and> w' = w2) \<or>
                  (x \<noteq> Done \<and> w' = stream_uniform_table_destroy tp w2)"
        by (auto simp add: stream_uniform_table_create_def
              split: sum.splits loop_exit.splits)
      from res show ?thesis
      proof
        assume d: "x = Done \<and> tp = None \<and> w' = w2"
        with l uniform_loop_Done [of stream "sint count" table "0 + n" 0 w0 tp w2 table]
        show ?thesis by auto
      next
        assume d: "x \<noteq> Done \<and> w' = stream_uniform_table_destroy tp w2"
        with uniform_loop_messages [OF l] m show ?thesis
          by (simp add: uniform_destroy_messages)
      qed
    qed
  qed
qed

lemma free_attributes_messages: "messages (free_attributes us w) = messages w"
  by (induction us arbitrary: w) (simp_all add: free_messages)

lemma attribute_destroy_messages: "messages (stream_attribute_table_destroy tp w) = messages w"
  by (simp add: stream_attribute_table_destroy_def free_messages free_attributes_messages
        split: option.splits)

lemma attribute_entry_messages:
  assumes "attribute_entry stream table offset w = Inr step"
  shows "case step of
           Entry u offset1 w1 \<Rightarrow> messages w1 = messages w
         | Jump x w1 \<Rightarrow> length (messages w1) = length (messages w) + 1"
proof -
  obtain p w0 where c: "calloc w = (p, w0)" by (cases "calloc w")
  from calloc_messages [OF c] have m: "messages w0 = messages w" .
  from assms c m show ?thesis
    by (auto simp add: attribute_entry_def stream_attribute_data_read_def Let_def printf_messages
          split: prod.splits sum.splits option.splits if_splits)
qed

lemma attribute_loop_messages:
  assumes "attribute_loop stream count table offset i w = Inr (x, tp, w')"
  shows "if x = Done then messages w' = messages w
         else length (messages w') = length (messages w) + 1"
  using assms
proof (induction stream count table offset i w rule: attribute_loop.induct)
  case (1 stream count table offset i w)
  show ?case
  proof (cases "i < count")
    case False
    with "1.prems" show ?thesis
      by (simp add: attribute_loop.simps [of stream count table offset i w])
  next
    case True
    from "1.prems" True obtain step where
      e: "attribute_entry stream table offset w = Inr step"
      by (auto simp add: attribute_loop.simps [of stream count table offset i w] split: sum.splits)
    show ?thesis
    proof (cases step)
      case (Jump y w1)
      with "1.prems" True e have "x = y" "w' = w1"
        by (simp_all add: attribute_loop.simps [of stream count table offset i w])
      moreover from e Jump have "y \<noteq> Done" using attribute_entry_no_Done by blast
      ultimately show ?thesis using attribute_entry_messages [OF e] Jump by simp
    next
      case (Entry u offset1 w1)
      with "1.prems" True e obtain t where t: "table = Some t"
        and r: "attribute_loop stream count (Some (t\<lparr>t_attributes := u # t_attributes t\<rparr>)) offset1 (i + 1) w1
                  = Inr (x, tp, w')"
        by (auto simp add: attribute_loop.simps [of stream count table offset i w]
              split: option.splits)
      from "1.IH" [OF True e Entry t r] attribute_entry_messages [OF e] Entry
      show ?thesis by simp
    qed
  qed
qed

lemma attribute_create_None_reported:
  assumes "stream_attribute_table_create (Some stream) sz w = Inr (None, w')" and "sz \<noteq> 0"
  shows "length (messages w') = length (messages w) + 1"
proof -
  obtain p w0 where c: "calloc w = (p, w0)" by (cases "calloc w")
  from calloc_messages [OF c] have m: "messages w0 = messages w" .
  show ?thesis
  proof (cases p)
    case None
    with assms c m show ?thesis
      by (auto simp add: stream_attribute_table_create_def printf_messages)
  next
    case (Some b)
    let ?t0 = "\<lparr>at_block = b, at_start = None, t_attributes = []\<rparr>"
    from assms c Some obtain n table where
      s: "stream_attribute_table_start_read stream 0 ?t0 = Inr (n, table)"
      by (auto simp add: stream_attribute_table_create_def split: sum.splits)
    show ?thesis
    proof (cases "at_start table")
      case None
      with assms c \<open>p = Some b\<close> s m show ?thesis
        by (auto simp add: stream_attribute_table_create_def attribute_destroy_messages printf_messages)
    next
      case (Some start)
      with assms c \<open>p = Some b\<close> s obtain count :: u32 and x tp w2 where
        l: "attribute_loop stream (sint count) (Some table) (0 + n) 0 w0 = Inr (x, tp, w2)"
        and res: "(x = Done \<and> tp = None \<and> w' = w2) \<or>
                  (x \<noteq> Done \<and> w' = stream_attribute_table_destroy tp w2)"
        by (auto simp add: stream_attribute_table_create_def
              split: sum.splits loop_exit.splits)
      from res show ?thesis
      proof
        assume d: "x = Done \<and> tp = None \<and> w' = w2"
        with l attribute_loop_Done [of stream "sint count" table "0 + n" 0 w0 tp w2 table]
        show ?thesis by auto
      next
        assume d: "x \<noteq> Done \<and> w' = stream_attribute_table_destroy tp w2"
        with attribute_loop_messages [OF l] m show ?thesis
          by (simp add: attribute_destroy_messages)
      qed
    qed
  qed
qed

subsection \<open>The stages of an attach\<close>

lemma compile_None_reported:
  "premali_shader_compile cc type source w = (None, w1) \<Longrightarrow>
   length (messages w1) = length (messages w) + 1"
proof -
  assume a: "premali_shader_compile cc type source w = (None, w1)"
  obtain p w0 where c: "calloc w = (p, w0)" by (cases "calloc w")
  from calloc_messages [OF c] have m: "messages w0 = messages w" .
  from a c m show ?thesis
    by (auto simp add: premali_shader_compile_def printf_messages free_messages
          split: option.splits prod.splits if_splits)
qed

lemma attach_vertex_uniforms_frame:
  assumes "attach_vertex_uniforms binary tp state w = Inr (state1, w1)"
  shows "vertex_attributes state1 = vertex_attributes state \<and>
         vertex_attribute_count state1 = vertex_attribute_count state \<and>
         fragment_uniforms state1 = fragment_uniforms state \<and>
         fragment_uniform_count state1 = fragment_uniform_count state \<and>
         fragment_uniform_size state1 = fragment_uniform_size state \<and>
         vs_shader state1 = vs_shader state \<and> plbu_shader state1 = plbu_shader state \<and>
         (tp = None \<longrightarrow> state1 = state \<and> w1 = w)"
  using assms
  by (auto simp add: attach_vertex_uniforms_def split: if_splits sum.splits prod.splits)

lemma attach_vertex_attributes_frame:
  assumes "attach_vertex_attributes binary tp state w = Inr (state1, w1)"
  shows "vertex_uniforms state1 = vertex_uniforms state \<and>
         vertex_uniform_count state1 = vertex_uniform_count state \<and>
         vertex_uniform_size state1 = vertex_uniform_size state \<and>
         fragment_uniforms state1 = fragment_uniforms state \<and>
         fragment_uniform_count state1 = fragment_uniform_count state \<and>
         fragment_uniform_size state1 = fragment_uniform_size state \<and>
         vs_shader state1 = vs_shader state \<and> plbu_shader state1 = plbu_shader state \<and>
         (tp = None \<longrightarrow> state1 = state \<and> w1 = w)"
  using assms
  by (auto simp add: attach_vertex_attributes_def split: if_splits sum.splits prod.splits)

lemma attach_fragment_uniforms_frame:
  assumes "attach_fragment_uniforms binary tp state w = Inr (state1, w1)"
  shows "vertex_uniforms state1 = vertex_uniforms state \<and>
         vertex_uniform_count state1 = vertex_uniform_count state \<and>
         vertex_uniform_size state1 = vertex_uniform_size state \<and>
         vertex_attributes state1 = vertex_attributes state \<and>
         vertex_attribute_count state1 = vertex_attribute_count state \<and>
         vs_shader state1 = vs_shader state \<and> plbu_shader state1 = plbu_shader state \<and>
         (tp = None \<longrightarrow> state1 = state \<and> w1 = w)"
  using assms
  by (auto simp add: attach_fragment_uniforms_def split: if_splits sum.splits prod.splits)

lemma vertex_attach_stages_code:
  assumes c: "premali_shader_compile cc MALI_SHADER_VERTEX source w = (Some binary, w1)"
    and a: "vertex_shader_attach cc state source w = Inr (r, state', w')"
  shows "\<exists>ut w2 state1 w3 at w4 state2 code1 code2.
      stream_uniform_table_create (b_uniform_stream binary) (b_uniform_stream_size binary) w1
        = Inr (ut, w2) \<and>
      attach_vertex_uniforms binary ut state w2 = Inr (state1, w3) \<and>
      stream_attribute_table_create (b_attribute_stream binary) (b_attribute_stream_size binary) w3
        = Inr (at, w4) \<and>
      attach_vertex_attributes binary at state1 w4 = Inr (state2, w') \<and>
      vertex_shader_attributes_patch (b_shader binary) (b_shader_size binary sdiv 16) = Inr code1 \<and>
      vertex_shader_varyings_patch code1 (b_shader_size binary sdiv 16) = Inr code2 \<and>
      r = 0 \<and> state' = vs_info_attach_shader state2 code2 (b_shader_size binary sdiv 16)"
  using a c
  by (auto simp add: vertex_shader_attach_def Let_def split: sum.splits prod.splits)

lemma create_None_reported_opt:
  assumes "stream_uniform_table_create sp sz w = Inr (None, w')" and "sp \<noteq> None \<and> sz \<noteq> 0"
  shows "length (messages w') = length (messages w) + 1"
proof -
  from assms(2) obtain stream where "sp = Some stream" by auto
  with assms show ?thesis using uniform_create_None_reported by metis
qed

lemma attribute_create_None_reported_opt:
  assumes "stream_attribute_table_create sp sz w = Inr (None, w')" and "sp \<noteq> None \<and> sz \<noteq> 0"
  shows "length (messages w') = length (messages w) + 1"
proof -
  from assms(2) obtain stream where "sp = Some stream" by auto
  with assms show ?thesis using attribute_create_None_reported by metis
qed

lemma fragment_attach_stages:
  assumes c: "premali_shader_compile cc MALI_SHADER_FRAGMENT source w = (Some binary, w1)"
    and a: "fragment_shader_attach cc state source w = Inr (r, state', w')"
  shows "\<exists>ut w2 state1.
      stream_uniform_table_create (b_uniform_stream binary) (b_uniform_stream_size binary) w1
        = Inr (ut, w2) \<and>
      attach_fragment_uniforms binary ut state w2 = Inr (state1, w') \<and>
      r = 0 \<and>
      state' = plbu_info_attach_shader state1 (b_shader binary) (b_shader_size binary sdiv 4)"
  using a c
  by (auto simp add: fragment_shader_attach_def Let_def split: sum.splits prod.splits)

subsection \<open>The example compilers, evaluated\<close>

lemmas attach_defs =
  vertex_shader_attach_def fragment_shader_attach_def premali_shader_compile_def
  attach_vertex_uniforms_def attach_vertex_attributes_def attach_fragment_uniforms_def
  vs_info_attach_shader_def plbu_info_attach_shader_def stream_memory_def
  vertex_shader_attributes_patch_def attributes_patch_loop.simps attributes_patch_insn_def
  vertex_shader_varyings_patch_def varyings_patch_loop.simps varyings_patch_insn_def
  signed_divide_int_def

lemma corrupt_uniforms_compile:
  "premali_shader_compile compiler_corrupt_uniforms type ''void main() {}'' world0 =
     (Some binary_corrupt_uniforms,
      \<lparr>live = [1], next_block = 2, alloc_script = [], messages = []\<rparr>)"
  by (simp add: premali_shader_compile_def calloc_def compiler_corrupt_uniforms_def world0_def)

lemma corrupt_uniforms_create:
  "stream_uniform_table_create (b_uniform_stream binary_corrupt_uniforms)
     (b_uniform_stream_size binary_corrupt_uniforms)
     \<lparr>live = [1], next_block = 2, alloc_script = [], messages = []\<rparr> =
     Inr (None,
          \<lparr>live = [1], next_block = 3, alloc_script = [],
             messages = [(''stream_uniform_table_create: Error: missing table start at'', [0])]\<rparr>)"
  by (simp add: parser_defs binary_corrupt_uniforms_def)

lemma corrupt_uniforms_vertex_attach:
  "vertex_shader_attach compiler_corrupt_uniforms state0 ''void main() {}'' world0 =
     Inr (0, state0\<lparr>vs_shader := Some ([0, 0x44000000, 0, 0], 1)\<rparr>,
          \<lparr>live = [1], next_block = 3, alloc_script = [],
             messages = [(''stream_uniform_table_create: Error: missing table start at'', [0])]\<rparr>)"
  by (simp add: attach_defs parser_defs compiler_corrupt_uniforms_def binary_corrupt_uniforms_def
        world0_def state0_def)

lemma corrupt_uniforms_fragment_attach:
  "fragment_shader_attach compiler_corrupt_uniforms state0 ''void main() {}'' world0 =
     Inr (0, state0\<lparr>plbu_shader := Some ([0, 0x40000000, 0, 0], 4)\<rparr>,
          \<lparr>live = [1], next_block = 3, alloc_script = [],
             messages = [(''stream_uniform_table_create: Error: missing table start at'', [0])]\<rparr>)"
  by (simp add: attach_defs parser_defs compiler_corrupt_uniforms_def binary_corrupt_uniforms_def
        world0_def state0_def)

lemma failing_compile:
  "premali_shader_compile compiler_fails type ''void main() {}'' world0 =
     (None,
      \<lparr>live = [], next_block = 2, alloc_script = [],
         messages = [(''premali_shader_compile: compilation failed'', [])]\<rparr>)"
  by (simp add: premali_shader_compile_def calloc_def free_def printf_def compiler_fails_def
        world0_def)

lemma corrupt_attributes_compile:
  "premali_shader_compile compiler_corrupt_attributes type ''void main() {}'' world0 =
     (Some binary_corrupt_attributes,
      \<lparr>live = [1], next_block = 2, alloc_script = [], messages = []\<rparr>)"
  by (simp add: premali_shader_compile_def calloc_def compiler_corrupt_attributes_def world0_def)

lemma corrupt_attributes_uniform_stage:
  "stream_uniform_table_create (b_uniform_stream binary_corrupt_attributes)
     (b_uniform_stream_size binary_corrupt_attributes)
     \<lparr>live = [1], next_block = 2, alloc_script = [], messages = []\<rparr> =
     Inr (None, \<lparr>live = [1], next_block = 2, alloc_script = [], messages = []\<rparr>)"
  by (simp add: stream_uniform_table_create_def binary_corrupt_attributes_def)

lemma corrupt_attributes_create:
  "stream_attribute_table_create (b_attribute_stream binary_corrupt_attributes)
     (b_attribute_stream_size binary_corrupt_attributes)
     \<lparr>live = [1], next_block = 2, alloc_script = [], messages = []\<rparr> =
     Inr (None,
          \<lparr>live = [1], next_block = 3, alloc_script = [],
             messages = [(''stream_attribute_table_create: Error: missing table start at'', [0])]\<rparr>)"
  by (simp add: parser_defs binary_corrupt_attributes_def)

lemma corrupt_attributes_vertex_attach:
  "vertex_shader_attach compiler_corrupt_attributes state0 ''void main() {}'' world0 =
     Inr (0, state0\<lparr>vs_shader := Some ([0, 0x44000000, 0, 0], 1)\<rparr>,
          \<lparr>live = [1], next_block = 3, alloc_script = [],
             messages = [(''stream_attribute_table_create: Error: missing table start at'', [0])]\<rparr>)"
  by (simp add: attach_defs parser_defs compiler_corrupt_attributes_def binary_corrupt_attributes_def
        world0_def state0_def)

lemma example_code_patched:
  "vertex_shader_attributes_patch [0, 0x40000000, 0, 0] 1 = Inr [0, 0x44000000, 0, 0]"
  "vertex_shader_varyings_patch [0, 0x44000000, 0, 0] 1 = Inr [0, 0x44000000, 0, 0]"
  by (simp_all add: attach_defs)


subsection \<open>What a corrupt stream does to an attach\<close>

text \<open>
  C5, as stated, fails.  With a compiler that succeeds and hands over a uniform stream that
  does not begin with a table-start chunk, the uniform parser reports the missing table
  start and returns null, yet \<open>vertex_shader_attach\<close> goes on, patches the machine code,
  attaches it and returns 0; \<open>fragment_shader_attach\<close> likewise attaches the machine code
  and returns 0.
\<close>

theorem corrupt_stream_attach_succeeds_counterexample:
  "premali_shader_compile compiler_corrupt_uniforms MALI_SHADER_VERTEX ''void main() {}'' world0 =
     (Some binary_corrupt_uniforms,
      \<lparr>live = [1], next_block = 2, alloc_script = [], messages = []\<rparr>) \<and>
   stream_uniform_table_create (b_uniform_stream binary_corrupt_uniforms)
     (b_uniform_stream_size binary_corrupt_uniforms)
     \<lparr>live = [1], next_block = 2, alloc_script = [], messages = []\<rparr> =
     Inr (None,
          \<lparr>live = [1], next_block = 3, alloc_script = [],
             messages = [(''stream_uniform_table_create: Error: missing table start at'', [0])]\<rparr>) \<and>
   vertex_shader_attach compiler_corrupt_uniforms state0 ''void main() {}'' world0 =
     Inr (0, state0\<lparr>vs_shader := Some ([0, 0x44000000, 0, 0], 1)\<rparr>,
          \<lparr>live = [1], next_block = 3, alloc_script = [],
             messages = [(''stream_uniform_table_create: Error: missing table start at'', [0])]\<rparr>) \<and>
   fragment_shader_attach compiler_corrupt_uniforms state0 ''void main() {}'' world0 =
     Inr (0, state0\<lparr>plbu_shader := Some ([0, 0x40000000, 0, 0], 4)\<rparr>,
          \<lparr>live = [1], next_block = 3, alloc_script = [],
             messages = [(''stream_uniform_table_create: Error: missing table start at'', [0])]\<rparr>)"
  using corrupt_uniforms_compile [of MALI_SHADER_VERTEX] corrupt_uniforms_create
    corrupt_uniforms_vertex_attach corrupt_uniforms_fragment_attach
  by simp

text \<open>
  C5, amended.  A compiler failure makes the attach function print a message and return -1
  with the state untouched.  When the compiler succeeds and the attach function returns, it
  returns 0 whatever the parsers found.  \<open>vertex_shader_attach\<close> has then attached exactly
  the binary's machine code after the attribute pass and the varying pass, with
  \<open>shader_size / 16\<close> as its size, and \<open>fragment_shader_attach\<close> exactly the binary's
  machine code with \<open>shader_size / 4\<close>.  If the uniform parser returned null (for a stream
  that is present and of non-zero size it has then printed exactly one message), the stage's
  uniform symbols, count and size are as they were before; if the attribute parser returned
  null (again with exactly one message for a stream that is present and of non-zero size),
  the vertex attribute symbols and count are as they were before and nothing more is
  printed.  When every parser of the stage returned null the state differs from the one
  before only in the attached machine code.  \<open>vertex_shader_attach\<close> never writes the
  fragment stage's fields, and \<open>fragment_shader_attach\<close> never writes the vertex stage's.
\<close>

theorem attach_fails_only_on_compiler_failure:
  "(premali_shader_compile cc MALI_SHADER_VERTEX source w = (None, wa) \<longrightarrow>
      vertex_shader_attach cc state source w = Inr (- 1, state, wa) \<and>
      length (messages wa) = length (messages w) + 1) \<and>
   (premali_shader_compile cc MALI_SHADER_FRAGMENT source w = (None, wb) \<longrightarrow>
      fragment_shader_attach cc state source w = Inr (- 1, state, wb) \<and>
      length (messages wb) = length (messages w) + 1) \<and>
   (premali_shader_compile cc MALI_SHADER_VERTEX source w = (Some binary, w1) \<and>
    vertex_shader_attach cc state source w = Inr (r, state', w') \<longrightarrow>
      r = 0 \<and>
      (\<exists>code1 code2.
         vertex_shader_attributes_patch (b_shader binary) (b_shader_size binary sdiv 16) = Inr code1 \<and>
         vertex_shader_varyings_patch code1 (b_shader_size binary sdiv 16) = Inr code2 \<and>
         vs_shader state' = Some (code2, b_shader_size binary sdiv 16)) \<and>
      fragment_uniforms state' = fragment_uniforms state \<and>
      fragment_uniform_count state' = fragment_uniform_count state \<and>
      fragment_uniform_size state' = fragment_uniform_size state \<and>
      plbu_shader state' = plbu_shader state \<and>
      (\<forall>w2. stream_uniform_table_create (b_uniform_stream binary) (b_uniform_stream_size binary) w1
               = Inr (None, w2) \<longrightarrow>
         vertex_uniforms state' = vertex_uniforms state \<and>
         vertex_uniform_count state' = vertex_uniform_count state \<and>
         vertex_uniform_size state' = vertex_uniform_size state \<and>
         (b_uniform_stream binary \<noteq> None \<and> b_uniform_stream_size binary \<noteq> 0 \<longrightarrow>
            length (messages w2) = length (messages w1) + 1)) \<and>
      (\<exists>ut w2 state1 w3 at w4.
         stream_uniform_table_create (b_uniform_stream binary) (b_uniform_stream_size binary) w1
           = Inr (ut, w2) \<and>
         attach_vertex_uniforms binary ut state w2 = Inr (state1, w3) \<and>
         stream_attribute_table_create (b_attribute_stream binary)
           (b_attribute_stream_size binary) w3 = Inr (at, w4) \<and>
         (at = None \<longrightarrow>
            vertex_attributes state' = vertex_attributes state \<and>
            vertex_attribute_count state' = vertex_attribute_count state \<and>
            w' = w4 \<and>
            (b_attribute_stream binary \<noteq> None \<and> b_attribute_stream_size binary \<noteq> 0 \<longrightarrow>
               length (messages w4) = length (messages w3) + 1)) \<and>
         (ut = None \<and> at = None \<longrightarrow>
            w3 = w2 \<and>
            (\<exists>code1 code2.
               vertex_shader_attributes_patch (b_shader binary) (b_shader_size binary sdiv 16)
                 = Inr code1 \<and>
               vertex_shader_varyings_patch code1 (b_shader_size binary sdiv 16) = Inr code2 \<and>
               state' = state\<lparr>vs_shader := Some (code2, b_shader_size binary sdiv 16)\<rparr>)))) \<and>
   (premali_shader_compile cc MALI_SHADER_FRAGMENT source w = (Some fbinary, v1) \<and>
    fragment_shader_attach cc state source w = Inr (q, fstate', v') \<longrightarrow>
      q = 0 \<and>
      plbu_shader fstate' = Some (b_shader fbinary, b_shader_size fbinary sdiv 4) \<and>
      vertex_uniforms fstate' = vertex_uniforms state \<and>
      vertex_uniform_count fstate' = vertex_uniform_count state \<and>
      vertex_uniform_size fstate' = vertex_uniform_size state \<and>
      vertex_attributes fstate' = vertex_attributes state \<and>
      vertex_attribute_count fstate' = vertex_attribute_count state \<and>
      vs_shader fstate' = vs_shader state \<and>
      (\<forall>v2. stream_uniform_table_create (b_uniform_stream fbinary) (b_uniform_stream_size fbinary) v1
               = Inr (None, v2) \<longrightarrow>
         fragment_uniforms fstate' = fragment_uniforms state \<and>
         fragment_uniform_count fstate' = fragment_uniform_count state \<and>
         fragment_uniform_size fstate' = fragment_uniform_size state \<and>
         fstate' = state\<lparr>plbu_shader := Some (b_shader fbinary, b_shader_size fbinary sdiv 4)\<rparr> \<and>
         v' = v2 \<and>
         (b_uniform_stream fbinary \<noteq> None \<and> b_uniform_stream_size fbinary \<noteq> 0 \<longrightarrow>
            length (messages v2) = length (messages v1) + 1)))"
proof (intro conjI impI; (elim conjE)?)
  assume c: "premali_shader_compile cc MALI_SHADER_VERTEX source w = (None, wa)"
  then show "vertex_shader_attach cc state source w = Inr (- 1, state, wa)"
    by (simp add: vertex_shader_attach_def)
  from c show "length (messages wa) = length (messages w) + 1"
    by (rule compile_None_reported)
next
  assume c: "premali_shader_compile cc MALI_SHADER_FRAGMENT source w = (None, wb)"
  then show "fragment_shader_attach cc state source w = Inr (- 1, state, wb)"
    by (simp add: fragment_shader_attach_def)
  from c show "length (messages wb) = length (messages w) + 1"
    by (rule compile_None_reported)
next
  assume c: "premali_shader_compile cc MALI_SHADER_VERTEX source w = (Some binary, w1)"
    and a: "vertex_shader_attach cc state source w = Inr (r, state', w')"
  let ?sz = "b_shader_size binary sdiv 16"
  from vertex_attach_stages_code [OF c a] obtain ut w2 state1 w3 at w4 state2 code1 code2 where
    u: "stream_uniform_table_create (b_uniform_stream binary) (b_uniform_stream_size binary) w1
        = Inr (ut, w2)"
    and au: "attach_vertex_uniforms binary ut state w2 = Inr (state1, w3)"
    and ca: "stream_attribute_table_create (b_attribute_stream binary)
               (b_attribute_stream_size binary) w3 = Inr (at, w4)"
    and aa: "attach_vertex_attributes binary at state1 w4 = Inr (state2, w')"
    and p1: "vertex_shader_attributes_patch (b_shader binary) ?sz = Inr code1"
    and p2: "vertex_shader_varyings_patch code1 ?sz = Inr code2"
    and r: "r = 0"
    and s: "state' = vs_info_attach_shader state2 code2 ?sz"
    by blast
  note fu = attach_vertex_uniforms_frame [OF au]
  note fa = attach_vertex_attributes_frame [OF aa]
  from r show "r = 0" .
  from s p1 p2 show "\<exists>code1 code2.
         vertex_shader_attributes_patch (b_shader binary) ?sz = Inr code1 \<and>
         vertex_shader_varyings_patch code1 ?sz = Inr code2 \<and>
         vs_shader state' = Some (code2, ?sz)"
    by (simp add: vs_info_attach_shader_def)
  from s fu fa show "fragment_uniforms state' = fragment_uniforms state"
    by (simp add: vs_info_attach_shader_def)
  from s fu fa show "fragment_uniform_count state' = fragment_uniform_count state"
    by (simp add: vs_info_attach_shader_def)
  from s fu fa show "fragment_uniform_size state' = fragment_uniform_size state"
    by (simp add: vs_info_attach_shader_def)
  from s fu fa show "plbu_shader state' = plbu_shader state"
    by (simp add: vs_info_attach_shader_def)
  show "\<forall>w2. stream_uniform_table_create (b_uniform_stream binary) (b_uniform_stream_size binary) w1
               = Inr (None, w2) \<longrightarrow>
         vertex_uniforms state' = vertex_uniforms state \<and>
         vertex_uniform_count state' = vertex_uniform_count state \<and>
         vertex_uniform_size state' = vertex_uniform_size state \<and>
         (b_uniform_stream binary \<noteq> None \<and> b_uniform_stream_size binary \<noteq> 0 \<longrightarrow>
            length (messages w2) = length (messages w1) + 1)"
  proof (intro allI impI)
    fix x2
    assume n: "stream_uniform_table_create (b_uniform_stream binary) (b_uniform_stream_size binary) w1
               = Inr (None, x2)"
    with u have "ut = None" by simp
    with fu have "state1 = state" by simp
    with s fa have "vertex_uniforms state' = vertex_uniforms state \<and>
         vertex_uniform_count state' = vertex_uniform_count state \<and>
         vertex_uniform_size state' = vertex_uniform_size state"
      by (simp add: vs_info_attach_shader_def)
    moreover have "length (messages x2) = length (messages w1) + 1"
      if "b_uniform_stream binary \<noteq> None \<and> b_uniform_stream_size binary \<noteq> 0"
      using n that by (rule create_None_reported_opt)
    ultimately show "vertex_uniforms state' = vertex_uniforms state \<and>
         vertex_uniform_count state' = vertex_uniform_count state \<and>
         vertex_uniform_size state' = vertex_uniform_size state \<and>
         (b_uniform_stream binary \<noteq> None \<and> b_uniform_stream_size binary \<noteq> 0 \<longrightarrow>
            length (messages x2) = length (messages w1) + 1)" by blast
  qed
  have A: "vertex_attributes state' = vertex_attributes state \<and>
            vertex_attribute_count state' = vertex_attribute_count state \<and>
            w' = w4 \<and>
            (b_attribute_stream binary \<noteq> None \<and> b_attribute_stream_size binary \<noteq> 0 \<longrightarrow>
               length (messages w4) = length (messages w3) + 1)" if n: "at = None"
  proof -
    from fa n have e: "state2 = state1" "w' = w4" by simp_all
    with s fu have "vertex_attributes state' = vertex_attributes state \<and>
            vertex_attribute_count state' = vertex_attribute_count state"
      by (simp add: vs_info_attach_shader_def)
    moreover have "length (messages w4) = length (messages w3) + 1"
      if "b_attribute_stream binary \<noteq> None \<and> b_attribute_stream_size binary \<noteq> 0"
      using ca [unfolded n] that by (rule attribute_create_None_reported_opt)
    ultimately show ?thesis using e by blast
  qed
  have B: "w3 = w2 \<and>
            (\<exists>code1 code2.
               vertex_shader_attributes_patch (b_shader binary) ?sz = Inr code1 \<and>
               vertex_shader_varyings_patch code1 ?sz = Inr code2 \<and>
               state' = state\<lparr>vs_shader := Some (code2, ?sz)\<rparr>)" if n: "ut = None \<and> at = None"
  proof -
    from fu n have "state1 = state" "w3 = w2" by simp_all
    moreover from fa n have "state2 = state1" by simp
    ultimately show ?thesis using s p1 p2 by (simp add: vs_info_attach_shader_def)
  qed
  from u au ca A B show "\<exists>ut w2 state1 w3 at w4.
         stream_uniform_table_create (b_uniform_stream binary) (b_uniform_stream_size binary) w1
           = Inr (ut, w2) \<and>
         attach_vertex_uniforms binary ut state w2 = Inr (state1, w3) \<and>
         stream_attribute_table_create (b_attribute_stream binary)
           (b_attribute_stream_size binary) w3 = Inr (at, w4) \<and>
         (at = None \<longrightarrow>
            vertex_attributes state' = vertex_attributes state \<and>
            vertex_attribute_count state' = vertex_attribute_count state \<and>
            w' = w4 \<and>
            (b_attribute_stream binary \<noteq> None \<and> b_attribute_stream_size binary \<noteq> 0 \<longrightarrow>
               length (messages w4) = length (messages w3) + 1)) \<and>
         (ut = None \<and> at = None \<longrightarrow>
            w3 = w2 \<and>
            (\<exists>code1 code2.
               vertex_shader_attributes_patch (b_shader binary) ?sz = Inr code1 \<and>
               vertex_shader_varyings_patch code1 ?sz = Inr code2 \<and>
               state' = state\<lparr>vs_shader := Some (code2, ?sz)\<rparr>))"
    by blast
next
  assume c: "premali_shader_compile cc MALI_SHADER_FRAGMENT source w = (Some fbinary, v1)"
    and a: "fragment_shader_attach cc state source w = Inr (q, fstate', v')"
  from fragment_attach_stages [OF c a] obtain ut w2 state1 where
    u: "stream_uniform_table_create (b_uniform_stream fbinary) (b_uniform_stream_size fbinary) v1
        = Inr (ut, w2)"
    and au: "attach_fragment_uniforms fbinary ut state w2 = Inr (state1, v')"
    and r: "q = 0"
    and s: "fstate' = plbu_info_attach_shader state1 (b_shader fbinary) (b_shader_size fbinary sdiv 4)"
    by blast
  note fu = attach_fragment_uniforms_frame [OF au]
  from r show "q = 0" .
  from s show "plbu_shader fstate' = Some (b_shader fbinary, b_shader_size fbinary sdiv 4)"
    by (simp add: plbu_info_attach_shader_def)
  from s fu show "vertex_uniforms fstate' = vertex_uniforms state"
    by (simp add: plbu_info_attach_shader_def)
  from s fu show "vertex_uniform_count fstate' = vertex_uniform_count state"
    by (simp add: plbu_info_attach_shader_def)
  from s fu show "vertex_uniform_size fstate' = vertex_uniform_size state"
    by (simp add: plbu_info_attach_shader_def)
  from s fu show "vertex_attributes fstate' = vertex_attributes state"
    by (simp add: plbu_info_attach_shader_def)
  from s fu show "vertex_attribute_count fstate' = vertex_attribute_count state"
    by (simp add: plbu_info_attach_shader_def)
  from s fu show "vs_shader fstate' = vs_shader state"
    by (simp add: plbu_info_attach_shader_def)
  show "\<forall>v2. stream_uniform_table_create (b_uniform_stream fbinary) (b_uniform_stream_size fbinary) v1
               = Inr (None, v2) \<longrightarrow>
         fragment_uniforms fstate' = fragment_uniforms state \<and>
         fragment_uniform_count fstate' = fragment_uniform_count state \<and>
         fragment_uniform_size fstate' = fragment_uniform_size state \<and>
         fstate' = state\<lparr>plbu_shader := Some (b_shader fbinary, b_shader_size fbinary sdiv 4)\<rparr> \<and>
         v' = v2 \<and>
         (b_uniform_stream fbinary \<noteq> None \<and> b_uniform_stream_size fbinary \<noteq> 0 \<longrightarrow>
            length (messages v2) = length (messages v1) + 1)"
  proof (intro allI impI)
    fix x2
    assume n: "stream_uniform_table_create (b_uniform_stream fbinary) (b_uniform_stream_size fbinary) v1
               = Inr (None, x2)"
    with u have ut: "ut = None" "w2 = x2" by simp_all
    with fu have e: "state1 = state" "v' = x2" by simp_all
    with s have "fragment_uniforms fstate' = fragment_uniforms state \<and>
         fragment_uniform_count fstate' = fragment_uniform_count state \<and>
         fragment_uniform_size fstate' = fragment_uniform_size state \<and>
         fstate' = state\<lparr>plbu_shader := Some (b_shader fbinary, b_shader_size fbinary sdiv 4)\<rparr>"
      by (simp add: plbu_info_attach_shader_def)
    moreover have "length (messages x2) = length (messages v1) + 1"
      if "b_uniform_stream fbinary \<noteq> None \<and> b_uniform_stream_size fbinary \<noteq> 0"
      using n that by (rule create_None_reported_opt)
    ultimately show "fragment_uniforms fstate' = fragment_uniforms state \<and>
         fragment_uniform_count fstate' = fragment_uniform_count state \<and>
         fragment_uniform_size fstate' = fragment_uniform_size state \<and>
         fstate' = state\<lparr>plbu_shader := Some (b_shader fbinary, b_shader_size fbinary sdiv 4)\<rparr> \<and>
         v' = x2 \<and>
         (b_uniform_stream fbinary \<noteq> None \<and> b_uniform_stream_size fbinary \<noteq> 0 \<longrightarrow>
            length (messages x2) = length (messages v1) + 1)" using e by blast
  qed
qed

theorem attach_fails_only_on_compiler_failure_witness:
  "premali_shader_compile compiler_fails MALI_SHADER_VERTEX ''void main() {}'' world0 =
     (None, \<lparr>live = [], next_block = 2, alloc_script = [],
         messages = [(''premali_shader_compile: compilation failed'', [])]\<rparr>) \<and>
   premali_shader_compile compiler_fails MALI_SHADER_FRAGMENT ''void main() {}'' world0 =
     (None, \<lparr>live = [], next_block = 2, alloc_script = [],
         messages = [(''premali_shader_compile: compilation failed'', [])]\<rparr>) \<and>
   vertex_shader_attach compiler_fails state0 ''void main() {}'' world0 =
     Inr (- 1, state0, \<lparr>live = [], next_block = 2, alloc_script = [],
         messages = [(''premali_shader_compile: compilation failed'', [])]\<rparr>) \<and>
   fragment_shader_attach compiler_fails state0 ''void main() {}'' world0 =
     Inr (- 1, state0, \<lparr>live = [], next_block = 2, alloc_script = [],
         messages = [(''premali_shader_compile: compilation failed'', [])]\<rparr>) \<and>
   premali_shader_compile compiler_corrupt_uniforms MALI_SHADER_VERTEX ''void main() {}'' world0 =
     (Some binary_corrupt_uniforms,
      \<lparr>live = [1], next_block = 2, alloc_script = [], messages = []\<rparr>) \<and>
   premali_shader_compile compiler_corrupt_uniforms MALI_SHADER_FRAGMENT ''void main() {}'' world0 =
     (Some binary_corrupt_uniforms,
      \<lparr>live = [1], next_block = 2, alloc_script = [], messages = []\<rparr>) \<and>
   vertex_shader_attach compiler_corrupt_uniforms state0 ''void main() {}'' world0 =
     Inr (0, state0\<lparr>vs_shader := Some ([0, 0x44000000, 0, 0], 1)\<rparr>,
          \<lparr>live = [1], next_block = 3, alloc_script = [],
             messages = [(''stream_uniform_table_create: Error: missing table start at'', [0])]\<rparr>) \<and>
   fragment_shader_attach compiler_corrupt_uniforms state0 ''void main() {}'' world0 =
     Inr (0, state0\<lparr>plbu_shader := Some ([0, 0x40000000, 0, 0], 4)\<rparr>,
          \<lparr>live = [1], next_block = 3, alloc_script = [],
             messages = [(''stream_uniform_table_create: Error: missing table start at'', [0])]\<rparr>) \<and>
   vertex_uniforms (state0\<lparr>vs_shader := Some ([0, 0x44000000, 0, 0], 1)\<rparr>) = vertex_uniforms state0 \<and>
   plbu_shader (state0\<lparr>vs_shader := Some ([0, 0x44000000, 0, 0], 1)\<rparr>) = plbu_shader state0 \<and>
   fragment_uniforms (state0\<lparr>plbu_shader := Some ([0, 0x40000000, 0, 0], 4)\<rparr>) = fragment_uniforms state0 \<and>
   vs_shader (state0\<lparr>plbu_shader := Some ([0, 0x40000000, 0, 0], 4)\<rparr>) = vs_shader state0 \<and>
   premali_shader_compile compiler_corrupt_attributes MALI_SHADER_VERTEX ''void main() {}'' world0 =
     (Some binary_corrupt_attributes,
      \<lparr>live = [1], next_block = 2, alloc_script = [], messages = []\<rparr>) \<and>
   stream_attribute_table_create (b_attribute_stream binary_corrupt_attributes)
     (b_attribute_stream_size binary_corrupt_attributes)
     \<lparr>live = [1], next_block = 2, alloc_script = [], messages = []\<rparr> =
     Inr (None,
          \<lparr>live = [1], next_block = 3, alloc_script = [],
             messages = [(''stream_attribute_table_create: Error: missing table start at'', [0])]\<rparr>) \<and>
   vertex_shader_attach compiler_corrupt_attributes state0 ''void main() {}'' world0 =
     Inr (0, state0\<lparr>vs_shader := Some ([0, 0x44000000, 0, 0], 1)\<rparr>,
          \<lparr>live = [1], next_block = 3, alloc_script = [],
             messages = [(''stream_attribute_table_create: Error: missing table start at'', [0])]\<rparr>) \<and>
   vertex_shader_attributes_patch (b_shader binary_corrupt_attributes)
     (b_shader_size binary_corrupt_attributes sdiv 16) = Inr [0, 0x44000000, 0, 0] \<and>
   vertex_shader_varyings_patch [0, 0x44000000, 0, 0]
     (b_shader_size binary_corrupt_attributes sdiv 16) = Inr [0, 0x44000000, 0, 0] \<and>
   vertex_attributes (state0\<lparr>vs_shader := Some ([0, 0x44000000, 0, 0], 1)\<rparr>) =
     vertex_attributes state0 \<and>
   vertex_attribute_count (state0\<lparr>vs_shader := Some ([0, 0x44000000, 0, 0], 1)\<rparr>) =
     vertex_attribute_count state0"
proof -
  let ?src = "''void main() {}''"
  let ?wfail = "\<lparr>live = [], next_block = 2, alloc_script = [],
         messages = [(''premali_shader_compile: compilation failed'', [])]\<rparr>"
  let ?w1 = "\<lparr>live = [1], next_block = 2, alloc_script = [], messages = []\<rparr>"
  let ?w2 = "\<lparr>live = [1], next_block = 3, alloc_script = [],
             messages = [(''stream_uniform_table_create: Error: missing table start at'', [0])]\<rparr>"
  let ?w3 = "\<lparr>live = [1], next_block = 3, alloc_script = [],
             messages = [(''stream_attribute_table_create: Error: missing table start at'', [0])]\<rparr>"
  let ?sv = "state0\<lparr>vs_shader := Some ([0, 0x44000000, 0, 0], 1)\<rparr>"
  let ?sf = "state0\<lparr>plbu_shader := Some ([0, 0x40000000, 0, 0], 4)\<rparr>"
  note f = attach_fails_only_on_compiler_failure
      [of compiler_fails ?src world0 ?wfail state0 ?wfail]
  note s = attach_fails_only_on_compiler_failure
      [of compiler_corrupt_uniforms ?src world0 _ state0 _ binary_corrupt_uniforms ?w1 0 ?sv ?w2
          binary_corrupt_uniforms ?w1 0 ?sf ?w2]
  note t = attach_fails_only_on_compiler_failure
      [of compiler_corrupt_attributes ?src world0 _ state0 _ binary_corrupt_attributes ?w1 0 ?sv ?w3]
  note f1 = f [THEN conjunct1, rule_format, OF failing_compile [of MALI_SHADER_VERTEX]]
  note f2 = f [THEN conjunct2, THEN conjunct1, rule_format,
      OF failing_compile [of MALI_SHADER_FRAGMENT]]
  from f1 have a: "vertex_shader_attach compiler_fails state0 ?src world0 = Inr (- 1, state0, ?wfail)"
    by (rule conjunct1)
  from f2 have b: "fragment_shader_attach compiler_fails state0 ?src world0 = Inr (- 1, state0, ?wfail)"
    by (rule conjunct1)
  note s3 = s [THEN conjunct2, THEN conjunct2, THEN conjunct1, rule_format,
      OF conjI [OF corrupt_uniforms_compile [of MALI_SHADER_VERTEX] corrupt_uniforms_vertex_attach]]
  note s4 = s [THEN conjunct2, THEN conjunct2, THEN conjunct2, rule_format,
      OF conjI [OF corrupt_uniforms_compile [of MALI_SHADER_FRAGMENT] corrupt_uniforms_fragment_attach]]
  note c1 = s3 [THEN conjunct2, THEN conjunct2, THEN conjunct2, THEN conjunct2, THEN conjunct2, THEN conjunct2, THEN conjunct1, rule_format, OF corrupt_uniforms_create,
      THEN conjunct1]
  note c2 = s3 [THEN conjunct2, THEN conjunct2, THEN conjunct2, THEN conjunct2, THEN conjunct2, THEN conjunct1]
  note d1 = s4 [THEN conjunct2, THEN conjunct2, THEN conjunct2, THEN conjunct2, THEN conjunct2, THEN conjunct2, THEN conjunct2, THEN conjunct2, rule_format, OF corrupt_uniforms_create, THEN conjunct1]
  note d2 = s4 [THEN conjunct2, THEN conjunct2, THEN conjunct2, THEN conjunct2, THEN conjunct2, THEN conjunct2, THEN conjunct2, THEN conjunct1]
  note t3 = t [THEN conjunct2, THEN conjunct2, THEN conjunct1, rule_format,
      OF conjI [OF corrupt_attributes_compile [of MALI_SHADER_VERTEX] corrupt_attributes_vertex_attach]]
  from t3 [THEN conjunct2, THEN conjunct2, THEN conjunct2, THEN conjunct2, THEN conjunct2, THEN conjunct2, THEN conjunct2]
  obtain ut w2 state1 w3 at w4 where
    e1: "stream_uniform_table_create (b_uniform_stream binary_corrupt_attributes)
           (b_uniform_stream_size binary_corrupt_attributes) ?w1 = Inr (ut, w2)"
    and e2: "attach_vertex_uniforms binary_corrupt_attributes ut state0 w2 = Inr (state1, w3)"
    and e3: "stream_attribute_table_create (b_attribute_stream binary_corrupt_attributes)
           (b_attribute_stream_size binary_corrupt_attributes) w3 = Inr (at, w4)"
    and e4: "at = None \<longrightarrow>
            vertex_attributes ?sv = vertex_attributes state0 \<and>
            vertex_attribute_count ?sv = vertex_attribute_count state0 \<and>
            ?w3 = w4 \<and>
            (b_attribute_stream binary_corrupt_attributes \<noteq> None \<and>
             b_attribute_stream_size binary_corrupt_attributes \<noteq> 0 \<longrightarrow>
               length (messages w4) = length (messages w3) + 1)"
    by blast
  from e1 corrupt_attributes_uniform_stage have "ut = None" "w2 = ?w1" by simp_all
  with e2 have "w3 = ?w1" by (simp add: attach_vertex_uniforms_def)
  with e3 corrupt_attributes_create have "at = None" by simp
  with e4 have g: "vertex_attributes ?sv = vertex_attributes state0"
    "vertex_attribute_count ?sv = vertex_attribute_count state0" by simp_all
  have p: "vertex_shader_attributes_patch (b_shader binary_corrupt_attributes)
     (b_shader_size binary_corrupt_attributes sdiv 16) = Inr [0, 0x44000000, 0, 0]"
    "vertex_shader_varyings_patch [0, 0x44000000, 0, 0]
     (b_shader_size binary_corrupt_attributes sdiv 16) = Inr [0, 0x44000000, 0, 0]"
    using example_code_patched
    by (simp_all add: binary_corrupt_attributes_def signed_divide_int_def)
  show ?thesis
    by (intro conjI a b c1 c2 d1 d2 g p failing_compile corrupt_uniforms_compile
          corrupt_uniforms_vertex_attach corrupt_uniforms_fragment_attach
          corrupt_attributes_compile corrupt_attributes_create corrupt_attributes_vertex_attach)
qed
end
